theory Spec2Isabelle
  imports Complex_Main "HOL-Library.AList" "HOL-Library.Sublist"
begin

section \<open>The metric logger of rlbench (rlbench/logger.py, rlbench/utils.py)\<close>

text \<open>
  The class \<^verbatim>\<open>Logger\<close> is embedded as a record of its attributes together with a
  record of the world it acts on (directory tree, standard output, calls made to the
  remote tracking service). Every method takes the pair of both and returns the
  exception it raised, if any, with the pair as the method left it: a Python exception
  does not undo the assignments made before it.

  Python dictionaries are association lists in insertion order; \<open>map_of\<close> reads a key
  and \<open>AList.update\<close> assigns one (in place when present, appended otherwise), as a
  \<^verbatim>\<open>dict\<close> does. Metric values are Python numbers, taken here as exact rationals;
  \<^verbatim>\<open>str\<close> on a number is a parameter \<open>str\<close> of the functions that render rows.
  The world maps the normalised path of each file and directory that exists to what
  it holds. A library call that touches the file system raises where the directory tree
  makes it raise (a missing parent directory, a path of the wrong kind); permissions and
  full disks are not modelled.
\<close>

subsection \<open>Exceptions\<close>

text \<open>
  The source raises \<^verbatim>\<open>ValueError\<close>, \<^verbatim>\<open>TypeError\<close> and \<^verbatim>\<open>RuntimeError\<close>; each raise
  site is one constructor here, named after the error class of the specification it
  stands for. \<open>ConfigurationError\<close> carries the site that rejected the arguments.
\<close>

datatype cfg_reason =
    InvalidLogMode          \<comment> \<open>ValueError, logger.py line 71\<close>
  | SubLoggerConflict       \<comment> \<open>ValueError, line 97\<close>
  | InvalidWandbMode        \<comment> \<open>ValueError, line 131\<close>
  | BinSizeKeysMismatch     \<comment> \<open>ValueError, line 144\<close>
  | BinSizeWrongType        \<comment> \<open>TypeError, line 147\<close>
  | EmptyMetricList         \<comment> \<open>ValueError, line 281\<close>
  | BinSizeNotSet           \<comment> \<open>ValueError, line 431\<close>

datatype error =
    ConfigurationError cfg_reason
  | UnknownGroupError                   \<comment> \<open>ValueError, lines 404, 433, 519\<close>
  | UnregisteredKeyError "string set"   \<comment> \<open>ValueError, lines 414, 505, with the key set of the message\<close>
  | ValidationError                     \<comment> \<open>ValueError, lines 436, 483\<close>
  | AlreadyFinishedError                \<comment> \<open>RuntimeError, line 573\<close>
  | MissingStepMetricError              \<comment> \<open>ValueError, line 499\<close>
  | UnreachableModeError                \<comment> \<open>the bare ValueError of line 422\<close>
  | NotImplementedError                 \<comment> \<open>line 219\<close>
  | TypeError                           \<comment> \<open>raised by the interpreter: \<^verbatim>\<open>dict + int\<close>, \<^verbatim>\<open>None[k]\<close>, a path that is None\<close>
  | KeyError string                     \<comment> \<open>raised by the interpreter: a missing dictionary key\<close>
  | AttributeError                      \<comment> \<open>raised by the interpreter: a method of None\<close>
  | ZeroDivisionError
  | UnpackError                         \<comment> \<open>ValueError of a tuple unpacking, line 328\<close>
  | ClosedFileError                     \<comment> \<open>ValueError: I/O operation on closed file\<close>
  | OSError                             \<comment> \<open>OSError and its subclasses (FileNotFoundError, FileExistsError,
                                            NotADirectoryError, IsADirectoryError, shutil.Error) of a file-system call\<close>

subsection \<open>Dictionaries and strings\<close>

type_synonym ('k, 'v) dict = "('k \<times> 'v) list"

definition dict_keys :: "('k, 'v) dict \<Rightarrow> 'k list" where
  "dict_keys d = map fst d"

text \<open>\<^verbatim>\<open>sep.join(xs)\<close>.\<close>

fun str_join :: "string \<Rightarrow> string list \<Rightarrow> string" where
  "str_join sep [] = []"
| "str_join sep [x] = x"
| "str_join sep (x # y # ys) = x @ sep @ str_join sep (y # ys)"

text \<open>\<^verbatim>\<open>s.split(c)\<close> for a one-character separator.\<close>

fun str_split :: "char \<Rightarrow> string \<Rightarrow> string list" where
  "str_split c [] = [[]]"
| "str_split c (x # xs) =
     (if x = c then [] # str_split c xs
      else (case str_split c xs of [] \<Rightarrow> [[x]] | w # ws \<Rightarrow> (x # w) # ws))"

text \<open>
  The elements of a list in the order of their first occurrence: the order in which
  \<^verbatim>\<open>set(xs)\<close> inserts them.
\<close>

definition uniq :: "'a list \<Rightarrow> 'a list" where
  "uniq xs = rev (remdups (rev xs))"

text \<open>
  \<^verbatim>\<open>list(set(curr_metrics).difference({step}))\<close> (logger.py lines 113-114). Python
  fixes no iteration order for a set: it follows the hashes of the elements, which for
  strings change from one interpreter run to the next. The order is the parameter
  \<open>set_iter\<close>, a function of the elements inserted; all that Python promises of it is
  \<open>set_iter_ok\<close>: it enumerates the same elements, each once.
\<close>

definition list_of_set_difference ::
  "(string list \<Rightarrow> string list) \<Rightarrow> string list \<Rightarrow> string \<Rightarrow> string list" where
  "list_of_set_difference set_iter curr_metrics step =
     set_iter (filter (\<lambda>m. m \<noteq> step) (uniq curr_metrics))"

definition set_iter_ok :: "(string list \<Rightarrow> string list) \<Rightarrow> bool" where
  "set_iter_ok set_iter = (\<forall>xs. distinct xs \<longrightarrow> distinct (set_iter xs) \<and> set (set_iter xs) = set xs)"

subsection \<open>Paths (rlbench/utils.py: join_paths)\<close>

type_synonym path = string

text \<open>One step of \<^verbatim>\<open>posixpath.join\<close>.\<close>

definition os_path_join2 :: "path \<Rightarrow> path \<Rightarrow> path" where
  "os_path_join2 a b =
     (if take 1 b = ''/'' then b
      else if a = [] \<or> last a = CHR ''/'' then a @ b
      else a @ ''/'' @ b)"

definition normpath_step :: "nat \<Rightarrow> string list \<Rightarrow> string \<Rightarrow> string list" where
  "normpath_step initial_slashes new_comps c =
     (if c = [] \<or> c = ''.'' then new_comps
      else if c \<noteq> ''..'' \<or> (initial_slashes = 0 \<and> new_comps = [])
              \<or> (new_comps \<noteq> [] \<and> last new_comps = ''..'')
           then new_comps @ [c]
      else if new_comps \<noteq> [] then butlast new_comps
      else new_comps)"

text \<open>\<^verbatim>\<open>posixpath.normpath\<close>.\<close>

definition os_path_normpath :: "path \<Rightarrow> path" where
  "os_path_normpath p =
     (if p = [] then ''.''
      else
        let initial_slashes =
              (if take 1 p = ''/''
               then (if take 2 p = ''//'' \<and> take 3 p \<noteq> ''///'' then 2 else 1)
               else (0::nat));
            comps = foldl (normpath_step initial_slashes) [] (str_split CHR ''/'' p);
            q = replicate initial_slashes CHR ''/'' @ str_join ''/'' comps
        in if q = [] then ''.'' else q)"

text \<open>\<^verbatim>\<open>posixpath.basename\<close>: what follows the last slash.\<close>

definition os_path_basename :: "path \<Rightarrow> string" where
  "os_path_basename p = last (str_split CHR ''/'' p)"

text \<open>
  \<^verbatim>\<open>join_paths(*paths)\<close>: the empty strings are dropped, the rest joined and
  normalised. An attribute that is still None is not the empty string, so it reaches
  \<^verbatim>\<open>os.path.join\<close>, which raises TypeError on it, as it does with no argument at all.
\<close>

definition join_paths :: "string option list \<Rightarrow> error + path" where
  "join_paths paths =
     (let ps = filter (\<lambda>x. x \<noteq> Some []) paths
      in case ps of
           [] \<Rightarrow> Inl TypeError
         | q # qs \<Rightarrow>
             if None \<in> set ps then Inl TypeError
             else Inr (os_path_normpath (foldl os_path_join2 (the q) (map the qs))))"

text \<open>
  \<^verbatim>\<open>join_paths(a, b)\<close> for a string \<open>a\<close> and a non-empty string literal \<open>b\<close>, where it
  cannot raise.
\<close>

definition join_paths2 :: "path \<Rightarrow> string \<Rightarrow> path" where
  "join_paths2 a b = os_path_normpath (if a = [] then b else os_path_join2 a b)"

subsection \<open>The world: directory tree, standard output, remote service\<close>

record metadata =
  md_name :: string
  md_job_type :: "string option"
  md_project :: "string option"
  md_group :: "string option"
  md_entity :: "string option"
  md_tags :: "string list option"
  md_notes :: "string option"

type_synonym summary_t = "(string, (string, rat option) dict) dict"

text \<open>
  What a file holds: text, or the JSON document that \<^verbatim>\<open>json.dump\<close> wrote of a value. The
  configuration is JSON-serialisable, as the specification has it, so that \<^verbatim>\<open>json.dump\<close>
  does not raise on it.
\<close>

datatype 'c content =
    Text string
  | ConfigJson "'c option"
  | MetadataJson metadata
  | SummaryJson summary_t

datatype 'c node = Dir | File "'c content"

datatype 'c wandb_call =
    WandbInit "string option" "'c option" "string option" "string option" bool
              "string list option" "string option" "string option" string
      \<comment> \<open>job_type, config, project, entity, reinit, tags, group, notes, mode\<close>
  | WandbDefineMetric string string
  | WandbLog "(string, rat) dict" bool
  | WandbSave path path string
  | WandbFinish

record 'c world =
  fs :: "(path, 'c node) dict"
  stdout :: "string list"
  wandb_calls :: "'c wandb_call list"
  wandb_run_dir :: path   \<comment> \<open>the directory the remote service gives a run (\<^verbatim>\<open>run.dir\<close>)\<close>

definition print :: "string \<Rightarrow> 'c world \<Rightarrow> 'c world" where
  "print s w = w\<lparr>stdout := stdout w @ [s]\<rparr>"

text \<open>The current directory and the root are there in every world.\<close>

definition is_cwd_or_root :: "path \<Rightarrow> bool" where
  "is_cwd_or_root p = (p = ''.'' \<or> (p \<noteq> [] \<and> p = replicate (length p) CHR ''/''))"

definition os_path_exists :: "'c world \<Rightarrow> path \<Rightarrow> bool" where
  "os_path_exists w p = (is_cwd_or_root p \<or> map_of (fs w) p \<noteq> None)"

definition os_path_isdir :: "'c world \<Rightarrow> path \<Rightarrow> bool" where
  "os_path_isdir w p = (is_cwd_or_root p \<or> map_of (fs w) p = Some Dir)"

text \<open>\<^verbatim>\<open>posixpath.dirname\<close>: up to the last slash, without the slashes that end it.\<close>

definition os_path_dirname :: "path \<Rightarrow> path" where
  "os_path_dirname p =
     (let head = take (length p - length (last (str_split CHR ''/'' p))) p
      in if head \<noteq> [] \<and> head \<noteq> replicate (length head) CHR ''/''
         then rev (dropWhile (\<lambda>c. c = CHR ''/'') (rev head))
         else head)"

text \<open>
  A new entry can be made at a path when the path is not empty and its parent is a
  directory; a path without a slash has the current directory as its parent.
\<close>

definition parent_is_dir :: "'c world \<Rightarrow> path \<Rightarrow> bool" where
  "parent_is_dir w p =
     (p \<noteq> [] \<and> (os_path_dirname p = [] \<or> os_path_isdir w (os_path_dirname p)))"

text \<open>\<^verbatim>\<open>os.mkdir(p)\<close>: raises when \<open>p\<close> exists or its parent is not a directory.\<close>

definition os_mkdir :: "path \<Rightarrow> 'c world \<Rightarrow> error option \<times> 'c world" where
  "os_mkdir p w =
     (if os_path_exists w p \<or> \<not> parent_is_dir w p then (Some OSError, w)
      else (None, w\<lparr>fs := AList.update p Dir (fs w)\<rparr>))"

text \<open>
  \<^verbatim>\<open>shutil.rmtree(p)\<close>: \<open>p\<close> and everything below it goes; the current directory and the
  root lose what they hold and cannot go themselves.
\<close>

definition below :: "path \<Rightarrow> path \<Rightarrow> bool" where
  "below p q =
     (if p = ''.'' then take 1 q \<noteq> ''/''
      else if is_cwd_or_root p then take 1 q = ''/''
      else q = p \<or> prefix (p @ ''/'') q)"

definition shutil_rmtree :: "path \<Rightarrow> 'c world \<Rightarrow> error option \<times> 'c world" where
  "shutil_rmtree p w =
     (if \<not> os_path_isdir w p then (Some OSError, w)
      else (if is_cwd_or_root p then Some OSError else None,
            w\<lparr>fs := filter (\<lambda>(q, n). \<not> below p q) (fs w)\<rparr>))"

text \<open>
  \<^verbatim>\<open>open(p, "w")\<close>, one write, close: raises when \<open>p\<close> is a directory or its parent is
  not one.
\<close>

definition write_file :: "path \<Rightarrow> 'c content \<Rightarrow> 'c world \<Rightarrow> error option \<times> 'c world" where
  "write_file p c w =
     (if os_path_isdir w p \<or> \<not> parent_is_dir w p then (Some OSError, w)
      else (None, w\<lparr>fs := AList.update p (File c) (fs w)\<rparr>))"

text \<open>Statements one after the other, up to the first that raises.\<close>

fun seq_io :: "('w \<Rightarrow> error option \<times> 'w) list \<Rightarrow> 'w \<Rightarrow> error option \<times> 'w" where
  "seq_io [] w = (None, w)"
| "seq_io (f # rest) w =
     (case f w of (Some e, w1) \<Rightarrow> (Some e, w1) | (None, w1) \<Rightarrow> seq_io rest w1)"

text \<open>utils.py, \<^verbatim>\<open>create_or_clear_folder\<close>.\<close>

definition create_or_clear_folder :: "path \<Rightarrow> 'c world \<Rightarrow> error option \<times> 'c world" where
  "create_or_clear_folder folder_path w =
     (if os_path_exists w folder_path
      then seq_io [shutil_rmtree folder_path, os_mkdir folder_path] w
      else os_mkdir folder_path w)"

text \<open>utils.py, \<^verbatim>\<open>save_json\<close>.\<close>

definition save_json :: "'c content \<Rightarrow> path \<Rightarrow> 'c world \<Rightarrow> error option \<times> 'c world" where
  "save_json d p w = write_file p d w"

text \<open>utils.py, \<^verbatim>\<open>copy_to_dict\<close>: \<^verbatim>\<open>for key in from_dict.keys(): to_dict[key] = from_dict[key]\<close>.\<close>

definition copy_to_dict :: "(string, rat) dict \<Rightarrow> (string, rat option) dict \<Rightarrow> (string, rat option) dict" where
  "copy_to_dict from_dict to_dict =
     fold (\<lambda>key to. AList.update key (map_of from_dict key) to) (dict_keys from_dict) to_dict"

text \<open>
  An open text file: what has been written through the handle, and whether it is
  closed. The file at \<open>fh_path\<close> holds \<open>fh_written\<close> once the handle is flushed or closed.
\<close>

record file_handle =
  fh_path :: path
  fh_written :: string
  fh_closed :: bool

definition open_w :: "path \<Rightarrow> 'c world \<Rightarrow> error + file_handle \<times> 'c world" where
  "open_w p w =
     (case write_file p (Text []) w of
        (Some e, w1) \<Rightarrow> Inl e
      | (None, w1) \<Rightarrow> Inr (\<lparr>fh_path = p, fh_written = [], fh_closed = False\<rparr>, w1))"

definition fh_write :: "string \<Rightarrow> file_handle \<Rightarrow> error + file_handle" where
  "fh_write s f =
     (if fh_closed f then Inl ClosedFileError else Inr (f\<lparr>fh_written := fh_written f @ s\<rparr>))"

text \<open>
  Closing flushes what was written to the file the handle has had open since \<^verbatim>\<open>open\<close>:
  the file then holds that text. (Two handles open on one path would each write over the
  other's text; no property below is about such a pair.)
\<close>

definition fh_close :: "file_handle \<Rightarrow> 'c world \<Rightarrow> file_handle \<times> 'c world" where
  "fh_close f w =
     (if fh_closed f then (f, w)
      else (f\<lparr>fh_closed := True\<rparr>,
            w\<lparr>fs := AList.update (fh_path f) (File (Text (fh_written f))) (fs w)\<rparr>))"

text \<open>
  \<^verbatim>\<open>shutil.copy(src, dst)\<close>: into \<open>dst\<close> when it is a directory, onto it otherwise;
  raises when \<open>src\<close> is no regular file, when it would copy the file onto itself, and
  when the copy cannot be opened.
\<close>

definition shutil_copy :: "path \<Rightarrow> path \<Rightarrow> 'c world \<Rightarrow> error option \<times> 'c world" where
  "shutil_copy src dst w =
     (case map_of (fs w) src of
        Some (File c) \<Rightarrow>
          let target = (if os_path_isdir w dst then os_path_join2 dst (os_path_basename src) else dst)
          in if target = src then (Some OSError, w) else write_file target c w
      | _ \<Rightarrow> (Some OSError, w))"

subsection \<open>The logger object\<close>

datatype LogMode = DISABLED | WANDB | LOCAL

text \<open>
  What \<^verbatim>\<open>_metric_n[group]\<close> holds: \<^verbatim>\<open>_setup\<close> stores a dictionary there (one zero for
  each metric), \<^verbatim>\<open>log_binned\<close> stores the integer 0.
\<close>

datatype counter = CInt int | CDict "(string, int) dict"

text \<open>The argument \<^verbatim>\<open>bin_size\<close>: None, an \<^verbatim>\<open>int\<close>, a \<^verbatim>\<open>dict\<close>, or a value of another type.\<close>

datatype bin_size_arg = BinNone | BinInt int | BinDict "(string, int) dict" | BinOther

record 'c init_args =
  arg_log_mode :: string
  arg_metrics :: "(string, string \<times> string list) dict"
  arg_name :: string
  arg_job_type :: "string option"
  arg_project :: "string option"
  arg_reinit :: bool
  arg_group :: "string option"
  arg_tags :: "string list option"
  arg_entity :: "string option"
  arg_notes :: "string option"
  arg_config :: "'c option"
  arg_bin_size :: bin_size_arg
  arg_wandb_mode :: string
  arg_local_base_dir :: "string option"
  arg_is_sub_logger :: bool
  arg_sub_loggers :: "unit list option"

record 'c logger =
  self_log_mode :: LogMode
  self_is_enabled :: bool
  self_meta :: metadata   \<comment> \<open>\<^verbatim>\<open>_name, _job_type, _project, _group, _entity, _tags, _notes\<close>\<close>
  self_config :: "'c option"
  self_reinit :: bool
  self_is_sub_logger :: bool
  self_has_sub_loggers :: bool
  self_sub_loggers :: "unit list"
  self_metric_groups :: "string list"
  self_step_metrics :: "(string, string) dict"
  self_metrics :: "(string, string list) dict"
  self_summary :: "summary_t option"
  self_wandb_mode :: string
  self_wandb_run :: "unit option"
  self_bin_size :: "(string, int) dict option"
  self_metric_roll_avg :: "(string, (string, rat) dict) dict option"
  self_metric_n :: "(string, counter) dict option"
  self_local_base_dir :: "string option"
  self_run_dir :: "path option"
  self_files_dir :: "path option"
  self_artifacts_dir :: "path option"
  self_metrics_dir :: "path option"
  self_temp_dir :: "path option"
  self_metrics_file_paths :: "(string, path) dict option"
  self_summary_path :: "path option"
  self_metrics_files :: "(string, file_handle) dict option"
  self_is_finished :: bool

type_synonym 'c state = "'c logger \<times> 'c world"
type_synonym 'c outcome = "error option \<times> 'c logger \<times> 'c world"

text \<open>\<^verbatim>\<open>d[k]\<close>, and a dictionary comprehension \<^verbatim>\<open>{k: f(k) for k in ks}\<close> whose body may raise.\<close>

definition getitem :: "(string, 'v) dict \<Rightarrow> string \<Rightarrow> error + 'v" where
  "getitem d k = (case map_of d k of None \<Rightarrow> Inl (KeyError k) | Some v \<Rightarrow> Inr v)"

fun dict_comp_acc :: "('k \<Rightarrow> error + 'v) \<Rightarrow> 'k list \<Rightarrow> ('k, 'v) dict \<Rightarrow> error + ('k, 'v) dict" where
  "dict_comp_acc f [] acc = Inr acc"
| "dict_comp_acc f (k # ks) acc =
     (case f k of
        Inl e \<Rightarrow> Inl e
      | Inr v \<Rightarrow> dict_comp_acc f ks (AList.update k v acc))"

definition dict_comp :: "('k \<Rightarrow> error + 'v) \<Rightarrow> 'k list \<Rightarrow> error + ('k, 'v) dict" where
  "dict_comp f ks = dict_comp_acc f ks []"

subsection \<open>Construction (Logger.__init__, lines 18-185)\<close>

definition parse_log_mode :: "string \<Rightarrow> error + LogMode" where
  "parse_log_mode log_mode =
     (if log_mode = ''disabled'' then Inr DISABLED
      else if log_mode = ''wandb'' then Inr WANDB
      else if log_mode = ''local'' then Inr LOCAL
      else Inl (ConfigurationError InvalidLogMode))"

text \<open>
  Lines 121-124. The groups of \<open>step_metrics\<close> are those of \<open>metrics\<close>, both being built
  from the keys of the same argument, so the assignment of line 124 finds its group.
\<close>

definition init_summary :: "(string, string list) dict \<Rightarrow> (string, string) dict \<Rightarrow> summary_t" where
  "init_summary metrics step_metrics =
     fold (\<lambda>(metric_group, step_metric) summary.
             case map_of summary metric_group of
               None \<Rightarrow> summary
             | Some sg \<Rightarrow> AList.update metric_group (AList.update step_metric None sg) summary)
          step_metrics
          (map (\<lambda>(metric_group, metrics_arr). (metric_group, map (\<lambda>metric. (metric, None)) metrics_arr))
               metrics)"

text \<open>Lines 138-147.\<close>

definition init_bin_size :: "string list \<Rightarrow> bin_size_arg \<Rightarrow> error + (string, int) dict option" where
  "init_bin_size metric_groups bin_size =
     (case bin_size of
        BinNone \<Rightarrow> Inr None
      | BinInt b \<Rightarrow> Inr (Some (map (\<lambda>group. (group, b)) metric_groups))
      | BinDict d \<Rightarrow>
          if set (dict_keys d) \<noteq> set metric_groups
          then Inl (ConfigurationError BinSizeKeysMismatch)
          else Inr (Some d)
      | BinOther \<Rightarrow> Inl (ConfigurationError BinSizeWrongType))"

text \<open>
  The loop of \<^verbatim>\<open>_setup_local\<close>, lines 274-284: open the file of each group, record it,
  refuse a group without metrics, write the header.
\<close>

fun setup_metric_files :: "string list \<Rightarrow> 'c state \<Rightarrow> 'c outcome" where
  "setup_metric_files [] (L, w) = (None, L, w)"
| "setup_metric_files (metric_group # rest) (L, w) =
     (case (self_metrics_dir L, self_metrics_file_paths L, self_metrics_files L) of
        (Some metrics_dir, Some paths, Some files) \<Rightarrow>
          let curr_path = join_paths2 metrics_dir (metric_group @ ''.csv'')
          in (case open_w curr_path w of
                Inl e \<Rightarrow> (Some e, L, w)
              | Inr (curr_file, w1) \<Rightarrow>
                  let L1 = L\<lparr>self_metrics_file_paths := Some (AList.update metric_group curr_path paths),
                             self_metrics_files := Some (AList.update metric_group curr_file files)\<rparr>
                  in (case getitem (self_metrics L1) metric_group of
                        Inl e \<Rightarrow> (Some e, L1, w1)
                      | Inr ms \<Rightarrow>
                          if length ms = 0 then (Some (ConfigurationError EmptyMetricList), L1, w1)
                          else (case getitem (self_step_metrics L1) metric_group of
                                  Inl e \<Rightarrow> (Some e, L1, w1)
                                | Inr step_metric \<Rightarrow>
                                    (case fh_write (step_metric @ '','' @ str_join '','' ms) curr_file of
                                       Inl e \<Rightarrow> (Some e, L1, w1)
                                     | Inr curr_file' \<Rightarrow>
                                         setup_metric_files rest
                                           (L1\<lparr>self_metrics_files :=
                                                  Some (AList.update metric_group curr_file' files)\<rparr>,
                                            w1)))))
      | _ \<Rightarrow> (Some TypeError, L, w))"

text \<open>
  \<^verbatim>\<open>_setup_local\<close>, lines 232-266: the warning, the run directory and its four
  subdirectories, \<^verbatim>\<open>config.json\<close> and \<^verbatim>\<open>metadata.json\<close>.
\<close>

definition setup_dirs :: "path \<Rightarrow> 'c logger \<Rightarrow> 'c world \<Rightarrow> error option \<times> 'c world" where
  "setup_dirs run_dir L w =
     seq_io [create_or_clear_folder run_dir,
             os_mkdir (join_paths2 run_dir ''temp''),
             os_mkdir (join_paths2 run_dir ''files''),
             os_mkdir (join_paths2 run_dir ''artifacts''),
             os_mkdir (join_paths2 run_dir ''metrics''),
             save_json (ConfigJson (self_config L)) (join_paths2 run_dir ''config.json''),
             write_file (join_paths2 run_dir ''metadata.json'') (MetadataJson (self_meta L))]
       (if os_path_isdir w run_dir
        then print (''WARNING: run_dir='' @ run_dir @ '' existed and was cleared'') w
        else w)"

text \<open>\<^verbatim>\<open>_setup_local\<close>, lines 214-292.\<close>

definition setup_local :: "bool \<Rightarrow> 'c state \<Rightarrow> 'c outcome" where
  "setup_local reinit s =
     (let (L, w) = s in
      if \<not> reinit then (Some NotImplementedError, L, w)
      else
        case join_paths [self_local_base_dir L, Some (md_name (self_meta L))] of
          Inl e \<Rightarrow> (Some e, L, w)
        | Inr run_dir \<Rightarrow>
            let L1 = L\<lparr>self_run_dir := Some run_dir,
                       self_summary_path := Some (join_paths2 run_dir ''summary.json''),
                       self_temp_dir := Some (join_paths2 run_dir ''temp''),
                       self_files_dir := Some (join_paths2 run_dir ''files''),
                       self_artifacts_dir := Some (join_paths2 run_dir ''artifacts''),
                       self_metrics_dir := Some (join_paths2 run_dir ''metrics'')\<rparr>
            in (case setup_dirs run_dir L1 w of
                 (Some e, w5) \<Rightarrow> (Some e, L1, w5)
               | (None, w5) \<Rightarrow>
                   let L2 = L1\<lparr>self_metrics_file_paths := Some [], self_metrics_files := Some []\<rparr>
                   in (case setup_metric_files (self_metric_groups L2) (L2, w5) of
                        (Some e, L3, w6) \<Rightarrow> (Some e, L3, w6)
                      | (None, L3, w6) \<Rightarrow>
                          (case write_file (join_paths2 run_dir ''status.txt'') (Text ''started'') w6 of
                             (e, w7) \<Rightarrow> (e, L3, w7)))))"

text \<open>
  \<^verbatim>\<open>_setup_wandb\<close>, lines 295-331. \<^verbatim>\<open>wandb.init\<close> is recorded as a call and leaves the
  directory of the run in the world. The loop unpacks each metric name, a string, into
  \<^verbatim>\<open>name, step_metric\<close>: that succeeds on a name of two characters only.
\<close>

fun unpack2 :: "string \<Rightarrow> error + string \<times> string" where
  "unpack2 [a, b] = Inr ([a], [b])"
| "unpack2 _ = Inl UnpackError"

fun define_metrics :: "string list \<Rightarrow> 'c world \<Rightarrow> error option \<times> 'c world" where
  "define_metrics [] w = (None, w)"
| "define_metrics (m # ms) w =
     (case unpack2 m of
        Inl e \<Rightarrow> (Some e, w)
      | Inr (name, step_metric) \<Rightarrow>
          define_metrics ms (w\<lparr>wandb_calls := wandb_calls w @ [WandbDefineMetric name step_metric]\<rparr>))"

fun define_all_metrics :: "(string, string list) dict \<Rightarrow> 'c world \<Rightarrow> error option \<times> 'c world" where
  "define_all_metrics [] w = (None, w)"
| "define_all_metrics ((metric_group, metrics_arr) # rest) w =
     (case define_metrics metrics_arr w of
        (Some e, w1) \<Rightarrow> (Some e, w1)
      | (None, w1) \<Rightarrow> define_all_metrics rest w1)"

definition setup_wandb :: "bool \<Rightarrow> 'c state \<Rightarrow> 'c outcome" where
  "setup_wandb reinit s =
     (let (L, w) = s;
          m = self_meta L;
          w1 = w\<lparr>wandb_calls := wandb_calls w @
                  [WandbInit (md_job_type m) (self_config L) (md_project m) (md_entity m) reinit
                             (md_tags m) (md_group m) (md_notes m) (self_wandb_mode L)],
                 fs := AList.update (wandb_run_dir w) Dir (fs w)\<rparr>;
          run_dir = wandb_run_dir w1;
          L1 = L\<lparr>self_wandb_run := Some (),
                 self_run_dir := Some run_dir,
                 self_temp_dir := Some (join_paths2 run_dir ''temp''),
                 self_files_dir := Some (join_paths2 run_dir ''files''),
                 self_artifacts_dir := Some (join_paths2 run_dir ''artifacts'')\<rparr>
      in case create_or_clear_folder (join_paths2 run_dir ''temp'') w1 of
           (Some e, w2) \<Rightarrow> (Some e, L1, w2)
         | (None, w2) \<Rightarrow>
             (case create_or_clear_folder (join_paths2 run_dir ''files'') w2 of
                (Some e, w3) \<Rightarrow> (Some e, L1, w3)
              | (None, w3) \<Rightarrow>
                  (case create_or_clear_folder (join_paths2 run_dir ''artifacts'') w3 of
                     (Some e, w4) \<Rightarrow> (Some e, L1, w4)
                   | (None, w4) \<Rightarrow>
                       (case define_all_metrics (self_metrics L1) w4 of
                          (e, w5) \<Rightarrow> (e, L1, w5)))))"

text \<open>\<^verbatim>\<open>_setup\<close>, lines 190-206.\<close>

definition Logger_setup :: "bool option \<Rightarrow> 'c state \<Rightarrow> 'c outcome" where
  "Logger_setup reinit_arg s =
     (let (L, w) = s in
      if self_is_enabled L then
        (case (if self_bin_size L \<noteq> None
               then (case dict_comp (\<lambda>metric_group.
                             map_sum id (map (\<lambda>metric. (metric, 0::rat)))
                               (getitem (self_metrics L) metric_group))
                           (self_metric_groups L) of
                       Inl e \<Rightarrow> Inl e
                     | Inr roll_avg \<Rightarrow>
                         (case dict_comp (\<lambda>metric_group.
                                   map_sum id (\<lambda>ms. CDict (map (\<lambda>metric. (metric, 0::int)) ms))
                                     (getitem (self_metrics L) metric_group))
                                 (self_metric_groups L) of
                            Inl e \<Rightarrow> Inr (L\<lparr>self_metric_roll_avg := Some roll_avg\<rparr>, Some e)
                          | Inr metric_n \<Rightarrow>
                              Inr (L\<lparr>self_metric_roll_avg := Some roll_avg,
                                      self_metric_n := Some metric_n\<rparr>, None)))
               else Inr (L, None)) of
           Inl e \<Rightarrow> (Some e, L, w)
         | Inr (L1, Some e) \<Rightarrow> (Some e, L1, w)
         | Inr (L1, None) \<Rightarrow>
             let reinit = (case reinit_arg of None \<Rightarrow> self_reinit L1 | Some r \<Rightarrow> r)
             in if self_log_mode L1 = LOCAL then setup_local reinit (L1, w)
                else if self_log_mode L1 = WANDB then setup_wandb reinit (L1, w)
                else (None, L1, w))
      else (None, L, w))"

text \<open>
  The attributes as lines 73-179 assign them, before \<^verbatim>\<open>_setup\<close> runs: the metric lists
  lose their repetitions and the step metric (lines 112-114), and the summary exists in
  local mode only.
\<close>

definition init_attributes ::
  "(string list \<Rightarrow> string list) \<Rightarrow> 'c init_args \<Rightarrow> LogMode \<Rightarrow> (string, int) dict option \<Rightarrow> 'c logger" where
  "init_attributes set_iter a log_mode bin_size =
     (let is_enabled = (log_mode \<noteq> DISABLED);
          step_metrics = map (\<lambda>(metric_group, tup). (metric_group, fst tup)) (arg_metrics a);
          metrics = map (\<lambda>(metric_group, tup).
                           (metric_group, list_of_set_difference set_iter (snd tup) (fst tup)))
                        (arg_metrics a)
      in \<lparr>self_log_mode = log_mode,
          self_is_enabled = is_enabled,
          self_meta = \<lparr>md_name = arg_name a, md_job_type = arg_job_type a,
                       md_project = arg_project a, md_group = arg_group a,
                       md_entity = arg_entity a, md_tags = arg_tags a,
                       md_notes = arg_notes a\<rparr>,
          self_config = arg_config a,
          self_reinit = arg_reinit a,
          self_is_sub_logger = arg_is_sub_logger a,
          self_has_sub_loggers = (arg_sub_loggers a \<noteq> None),
          self_sub_loggers = (case arg_sub_loggers a of None \<Rightarrow> [] | Some sl \<Rightarrow> sl),
          self_metric_groups = dict_keys (arg_metrics a),
          self_step_metrics = step_metrics,
          self_metrics = metrics,
          self_summary = (if is_enabled \<and> log_mode = LOCAL
                          then Some (init_summary metrics step_metrics) else None),
          self_wandb_mode = arg_wandb_mode a,
          self_wandb_run = None,
          self_bin_size = bin_size,
          self_metric_roll_avg = None,
          self_metric_n = None,
          self_local_base_dir = arg_local_base_dir a,
          self_run_dir = None,
          self_files_dir = None,
          self_artifacts_dir = None,
          self_metrics_dir = None,
          self_temp_dir = None,
          self_metrics_file_paths = None,
          self_summary_path = None,
          self_metrics_files = None,
          self_is_finished = False\<rparr>)"

text \<open>
  \<^verbatim>\<open>__init__\<close>: the checks in the order of the source (log mode, line 71; sub-loggers,
  line 97; wandb mode, line 131; bin size, lines 138-147), then \<^verbatim>\<open>_setup\<close> when enabled.
\<close>

definition Logger_init ::
  "(string list \<Rightarrow> string list) \<Rightarrow> 'c init_args \<Rightarrow> 'c world \<Rightarrow> (error + 'c logger) \<times> 'c world" where
  "Logger_init set_iter a w =
     (case parse_log_mode (arg_log_mode a) of
        Inl e \<Rightarrow> (Inl e, w)
      | Inr log_mode \<Rightarrow>
          let w1 = print ''WARNING: conv_to_json_d not properly implemented'' w
          in if arg_is_sub_logger a \<and> arg_sub_loggers a \<noteq> None
             then (Inl (ConfigurationError SubLoggerConflict), w1)
             else if arg_wandb_mode a \<notin> {''online'', ''local'', ''disabled''}
             then (Inl (ConfigurationError InvalidWandbMode), w1)
             else
               (case init_bin_size (dict_keys (arg_metrics a)) (arg_bin_size a) of
                  Inl e \<Rightarrow> (Inl e, w1)
                | Inr bin_size \<Rightarrow>
                    let L = init_attributes set_iter a log_mode bin_size
                    in if self_is_enabled L
                       then (case Logger_setup None (L, w1) of
                               (None, L', w') \<Rightarrow> (Inr L', w')
                             | (Some e, L', w') \<Rightarrow> (Inl e, w'))
                       else (Inr L, w1)))"

subsection \<open>Logging (lines 396-523, 544-549)\<close>

text \<open>
  \<^verbatim>\<open>_to_row\<close>, lines 489-510. With \<open>check_keys\<close> the source raises when the record has
  \<^emph>\<open>no\<close> key outside the group's metrics (line 504); \<^verbatim>\<open>log\<close> never passes it.
\<close>

definition to_row ::
  "(rat \<Rightarrow> string) \<Rightarrow> (string, rat) dict \<Rightarrow> string \<Rightarrow> bool \<Rightarrow> 'c logger \<Rightarrow> error + string" where
  "to_row str d grp check_keys L =
     (case getitem (self_metrics L) grp of
        Inl e \<Rightarrow> Inl e
      | Inr group_metrics \<Rightarrow>
          (case getitem (self_step_metrics L) grp of
             Inl e \<Rightarrow> Inl e
           | Inr step_metric \<Rightarrow>
               (case map_of d step_metric of
                  None \<Rightarrow> Inl MissingStepMetricError
                | Some step_val \<Rightarrow>
                    if check_keys \<and> set (dict_keys d) - set group_metrics = {}
                    then Inl (UnregisteredKeyError (set (dict_keys d) - set group_metrics))
                    else Inr (str step_val @ '','' @
                              str_join '',''
                                (map (\<lambda>col. case map_of d col of None \<Rightarrow> [] | Some v \<Rightarrow> str v)
                                     group_metrics)))))"

text \<open>\<^verbatim>\<open>_log_local\<close>, lines 512-523. The summary is merged before the row is built.\<close>

definition log_local ::
  "(rat \<Rightarrow> string) \<Rightarrow> (string, rat) dict \<Rightarrow> string \<Rightarrow> bool \<Rightarrow> 'c state \<Rightarrow> 'c outcome" where
  "log_local str d grp check_keys s =
     (let (L, w) = s in
      if grp \<notin> set (dict_keys (self_metrics L)) then (Some UnknownGroupError, L, w)
      else
        (case self_summary L of
           None \<Rightarrow> (Some TypeError, L, w)
         | Some summary \<Rightarrow>
             (case getitem summary grp of
                Inl e \<Rightarrow> (Some e, L, w)
              | Inr sg \<Rightarrow>
                  let L1 = L\<lparr>self_summary := Some (AList.update grp (copy_to_dict d sg) summary)\<rparr>
                  in (case to_row str d grp check_keys L1 of
                        Inl e \<Rightarrow> (Some e, L1, w)
                      | Inr row \<Rightarrow>
                          (case self_metrics_files L1 of
                             None \<Rightarrow> (Some TypeError, L1, w)
                           | Some files \<Rightarrow>
                               (case getitem files grp of
                                  Inl e \<Rightarrow> (Some e, L1, w)
                                | Inr f \<Rightarrow>
                                    (case fh_write (CHR 0x0A # row) f of
                                       Inl e \<Rightarrow> (Some e, L1, w)
                                     | Inr f' \<Rightarrow>
                                         (None,
                                          L1\<lparr>self_metrics_files := Some (AList.update grp f' files)\<rparr>,
                                          w))))))))"

text \<open>\<^verbatim>\<open>_log_wandb\<close>, lines 544-549.\<close>

definition log_wandb :: "(string, rat) dict \<Rightarrow> bool \<Rightarrow> 'c state \<Rightarrow> 'c outcome" where
  "log_wandb d commit s =
     (let (L, w) = s in
      case self_wandb_run L of
        None \<Rightarrow> (Some AttributeError, L, w)
      | Some _ \<Rightarrow> (None, L, w\<lparr>wandb_calls := wandb_calls w @ [WandbLog d commit]\<rparr>))"

text \<open>\<^verbatim>\<open>log\<close>, lines 396-422.\<close>

definition Logger_log ::
  "(rat \<Rightarrow> string) \<Rightarrow> (string, rat) dict \<Rightarrow> string \<Rightarrow> bool \<Rightarrow> 'c state \<Rightarrow> 'c outcome" where
  "Logger_log str d grp check_keys s =
     (let (L, w) = s in
      if self_is_enabled L then
        if grp \<notin> set (dict_keys (self_metrics L)) then (Some UnknownGroupError, L, w)
        else
          (case (if check_keys
                 then (case getitem (self_step_metrics L) grp of
                         Inl e \<Rightarrow> Some e
                       | Inr step_metric \<Rightarrow>
                           (case getitem (self_metrics L) grp of
                              Inl e \<Rightarrow> Some e
                            | Inr ms \<Rightarrow>
                                let set_diff = set (dict_keys d) - {step_metric} - set ms
                                in if set_diff \<noteq> {} then Some (UnregisteredKeyError set_diff)
                                   else None))
                 else None) of
             Some e \<Rightarrow> (Some e, L, w)
           | None \<Rightarrow>
               if self_log_mode L = LOCAL then log_local str d grp False (L, w)
               else if self_log_mode L = WANDB then log_wandb d True (L, w)
               else (Some UnreachableModeError, L, w))
      else (None, L, w))"

text \<open>
  The loop of \<^verbatim>\<open>log_binned\<close>, lines 442-447: the running mean of each metric of the
  record, \<open>n\<close> being the count of this call.
\<close>

fun update_roll_avg :: "int \<Rightarrow> string \<Rightarrow> (string, rat) dict \<Rightarrow> 'c logger \<Rightarrow> error option \<times> 'c logger" where
  "update_roll_avg n grp [] L = (None, L)"
| "update_roll_avg n grp ((metric, val) # rest) L =
     (case self_metric_roll_avg L of
        None \<Rightarrow> (Some TypeError, L)
      | Some roll_avg \<Rightarrow>
          (case getitem roll_avg grp of
             Inl e \<Rightarrow> (Some e, L)
           | Inr avgs \<Rightarrow>
               (case getitem avgs metric of
                  Inl e \<Rightarrow> (Some e, L)
                | Inr curr_avg \<Rightarrow>
                    if n = 0 then (Some ZeroDivisionError, L)
                    else
                      let new_avg = curr_avg * of_int (n - 1) / of_int n + val / of_int n
                      in update_roll_avg n grp rest
                           (L\<lparr>self_metric_roll_avg :=
                                 Some (AList.update grp (AList.update metric new_avg avgs) roll_avg)\<rparr>))))"

text \<open>
  \<^verbatim>\<open>log_binned\<close>, lines 424-452. Line 441 adds 1 to \<^verbatim>\<open>self._metric_n[grp]\<close>; on the
  dictionary that \<^verbatim>\<open>_setup\<close> stored there Python raises TypeError.
\<close>

definition Logger_log_binned ::
  "(rat \<Rightarrow> string) \<Rightarrow> (string, rat) dict \<Rightarrow> string \<Rightarrow> 'c state \<Rightarrow> 'c outcome" where
  "Logger_log_binned str d grp s =
     (let (L, w) = s in
      if self_is_enabled L then
        (case self_bin_size L of
           None \<Rightarrow> (Some (ConfigurationError BinSizeNotSet), L, w)
         | Some bin_size \<Rightarrow>
             if grp \<notin> set (dict_keys (self_metrics L)) then (Some UnknownGroupError, L, w)
             else
               (case getitem (self_metrics L) grp of
                  Inl e \<Rightarrow> (Some e, L, w)
                | Inr ms \<Rightarrow>
                    if set (dict_keys d) \<noteq> set ms then (Some ValidationError, L, w)
                    else
                      (case getitem bin_size grp of
                         Inl e \<Rightarrow> (Some e, L, w)
                       | Inr group_bin_size \<Rightarrow>
                           (case self_metric_n L of
                              None \<Rightarrow> (Some TypeError, L, w)
                            | Some metric_n \<Rightarrow>
                                (case getitem metric_n grp of
                                   Inl e \<Rightarrow> (Some e, L, w)
                                 | Inr (CDict _) \<Rightarrow> (Some TypeError, L, w)
                                 | Inr (CInt k) \<Rightarrow>
                                     let n = k + 1
                                     in (case update_roll_avg n grp d L of
                                           (Some e, L1) \<Rightarrow> (Some e, L1, w)
                                         | (None, L1) \<Rightarrow>
                                             if n = group_bin_size then
                                               (case self_metric_roll_avg L1 of
                                                  None \<Rightarrow> (Some TypeError, L1, w)
                                                | Some roll_avg \<Rightarrow>
                                                    (case getitem roll_avg grp of
                                                       Inl e \<Rightarrow> (Some e, L1, w)
                                                     | Inr avg_d \<Rightarrow>
                                                         Logger_log str avg_d grp False
                                                           (L1\<lparr>self_metric_n :=
                                                                  Some (AList.update grp (CInt 0) metric_n)\<rparr>,
                                                            w)))
                                             else (None, L1, w)))))))
      else (None, L, w))"

subsection \<open>Files and summary (lines 461-484, 525-560)\<close>

definition log_file_local :: "path \<Rightarrow> 'c state \<Rightarrow> 'c outcome" where
  "log_file_local file_path s =
     (let (L, w) = s;
          file_name = os_path_basename file_path
      in case join_paths [self_files_dir L, Some file_name] of
           Inl e \<Rightarrow> (Some e, L, w)
         | Inr new_path \<Rightarrow>
             if os_path_exists w new_path
             then (None, L, print (''WARNING: '' @ file_name @ '' already in files dir so skipped.'') w)
             else (case self_files_dir L of
                     None \<Rightarrow> (Some TypeError, L, w)
                   | Some files_dir \<Rightarrow>
                       (case shutil_copy file_path files_dir w of (e, w1) \<Rightarrow> (e, L, w1))))"

definition log_file_wandb :: "path \<Rightarrow> 'c state \<Rightarrow> 'c outcome" where
  "log_file_wandb file_path s =
     (let (L, w) = s;
          file_name = os_path_basename file_path
      in case join_paths [self_files_dir L, Some file_name] of
           Inl e \<Rightarrow> (Some e, L, w)
         | Inr new_path \<Rightarrow>
             (case shutil_copy file_path new_path w of
                (Some e, w1) \<Rightarrow> (Some e, L, w1)
              | (None, w1) \<Rightarrow>
                  (case (self_wandb_run L, self_files_dir L) of
                     (Some _, Some files_dir) \<Rightarrow>
                       (None, L, w1\<lparr>wandb_calls := wandb_calls w1 @ [WandbSave new_path files_dir ''live'']\<rparr>)
                   | _ \<Rightarrow> (Some AttributeError, L, w1))))"

definition Logger_log_file :: "path \<Rightarrow> 'c state \<Rightarrow> 'c outcome" where
  "Logger_log_file file_path s =
     (let (L, w) = s in
      if self_is_enabled L then
        if self_log_mode L = LOCAL then log_file_local file_path (L, w)
        else if self_log_mode L = WANDB then log_file_wandb file_path (L, w)
        else (None, L, w)
      else (None, L, w))"

definition Logger_log_summary :: "'c state \<Rightarrow> 'c outcome" where
  "Logger_log_summary s =
     (let (L, w) = s in
      if self_is_enabled L \<and> self_log_mode L = LOCAL then
        (case self_summary L of
           None \<Rightarrow> (Some ValidationError, L, w)
         | Some summary \<Rightarrow>
             (case self_summary_path L of
                None \<Rightarrow> (Some TypeError, L, w)
              | Some summary_path \<Rightarrow>
                  (case save_json (SummaryJson summary) summary_path w of (e, w1) \<Rightarrow> (e, L, w1))))
      else (None, L, w))"

subsection \<open>Finish (lines 570-589)\<close>

fun close_all :: "(string, file_handle) dict \<Rightarrow> 'c world \<Rightarrow> (string, file_handle) dict \<times> 'c world" where
  "close_all [] w = ([], w)"
| "close_all ((g, f) # rest) w =
     (let (f', w1) = fh_close f w;
          (rest', w2) = close_all rest w1
      in ((g, f') # rest', w2))"

text \<open>The method reads \<^verbatim>\<open>self._is_finished\<close> and assigns it nowhere.\<close>

definition Logger_finish :: "'c state \<Rightarrow> 'c outcome" where
  "Logger_finish s =
     (let (L, w) = s in
      if self_is_enabled L then
        if self_is_finished L then (Some AlreadyFinishedError, L, w)
        else if self_log_mode L = LOCAL then
          (case self_metrics_files L of
             None \<Rightarrow> (Some AttributeError, L, w)
           | Some files \<Rightarrow>
               let (files', w1) = close_all files w;
                   L1 = L\<lparr>self_metrics_files := Some files'\<rparr>
               in (case Logger_log_summary (L1, w1) of
                     (Some e, L2, w2) \<Rightarrow> (Some e, L2, w2)
                   | (None, L2, w2) \<Rightarrow>
                       (case join_paths [self_run_dir L2, Some ''status.txt''] of
                          Inl e \<Rightarrow> (Some e, L2, w2)
                        | Inr status_path \<Rightarrow>
                            (case write_file status_path (Text ''finished'') w2 of
                               (e, w3) \<Rightarrow> (e, L2, w3)))))
        else if self_log_mode L = WANDB then
          (case self_wandb_run L of
             None \<Rightarrow> (Some AttributeError, L, w)
           | Some _ \<Rightarrow> (None, L, w\<lparr>wandb_calls := wandb_calls w @ [WandbFinish]\<rparr>))
        else (None, L, w)
      else (None, L, w))"

subsection \<open>Sequences of calls\<close>

datatype call =
    Log "(string, rat) dict" string bool
  | LogBinned "(string, rat) dict" string
  | LogFile path
  | LogSummary
  | Finish

fun perform :: "(rat \<Rightarrow> string) \<Rightarrow> call \<Rightarrow> 'c state \<Rightarrow> 'c outcome" where
  "perform str (Log d grp check_keys) s = Logger_log str d grp check_keys s"
| "perform str (LogBinned d grp) s = Logger_log_binned str d grp s"
| "perform str (LogFile file_path) s = Logger_log_file file_path s"
| "perform str LogSummary s = Logger_log_summary s"
| "perform str Finish s = Logger_finish s"

text \<open>
  The caller makes the calls one after the other on the same object; a call that raised
  leaves the object as it was at the raise, and the next call goes on from there.
\<close>

fun run :: "(rat \<Rightarrow> string) \<Rightarrow> call list \<Rightarrow> 'c state \<Rightarrow> error option list \<times> 'c state" where
  "run str [] s = ([], s)"
| "run str (c # cs) s =
     (case perform str c s of
        (r, s1) \<Rightarrow> (case run str cs s1 of (rs, s2) \<Rightarrow> (r # rs, s2)))"

subsection \<open>Reading the claims\<close>

text \<open>
  A local-mode logger as the constructor leaves it and as every method keeps it: it is
  enabled, no group is without metrics, its summary and its file table have the groups
  of its metric table, and each counter of \<^verbatim>\<open>_metric_n\<close> is still the dictionary \<^verbatim>\<open>_setup\<close> stored.
\<close>

definition local_logger :: "'c logger \<Rightarrow> bool" where
  "local_logger L =
     (self_is_enabled L \<and> self_log_mode L = LOCAL
      \<and> distinct (dict_keys (self_metrics L))
      \<and> list_all (\<lambda>(g, ms). ms \<noteq> []) (self_metrics L)
      \<and> dict_keys (self_step_metrics L) = dict_keys (self_metrics L)
      \<and> (case self_summary L of
            None \<Rightarrow> False
          | Some summary \<Rightarrow> dict_keys summary = dict_keys (self_metrics L))
      \<and> (case self_metrics_files L of
            None \<Rightarrow> False
          | Some files \<Rightarrow> dict_keys files = dict_keys (self_metrics L))
      \<and> (case self_metric_n L of
            None \<Rightarrow> True
          | Some metric_n \<Rightarrow> list_all (\<lambda>(g, c). case c of CDict _ \<Rightarrow> True | CInt _ \<Rightarrow> False) metric_n))"

text \<open>The attributes that neither \<^verbatim>\<open>_setup_local\<close> nor a method assigns.\<close>

definition same_tables :: "'c logger \<Rightarrow> 'c logger \<Rightarrow> bool" where
  "same_tables L L' =
     (self_is_enabled L' = self_is_enabled L \<and> self_log_mode L' = self_log_mode L
      \<and> self_metric_groups L' = self_metric_groups L
      \<and> self_metrics L' = self_metrics L \<and> self_step_metrics L' = self_step_metrics L
      \<and> self_bin_size L' = self_bin_size L \<and> self_is_finished L' = self_is_finished L)"

text \<open>
  The row the specification describes for a record: the value of the step metric, then
  the value of each column in order, an omitted one as the empty field.
\<close>

definition csv_field :: "(rat \<Rightarrow> string) \<Rightarrow> (string, rat) dict \<Rightarrow> string \<Rightarrow> string" where
  "csv_field str d col = (case map_of d col of None \<Rightarrow> [] | Some v \<Rightarrow> str v)"

definition csv_row :: "(rat \<Rightarrow> string) \<Rightarrow> string \<Rightarrow> string list \<Rightarrow> (string, rat) dict \<Rightarrow> string" where
  "csv_row str step_metric cols d = str_join '','' (map (csv_field str d) (step_metric # cols))"

text \<open>The header the specification describes.\<close>

definition csv_header :: "string \<Rightarrow> string list \<Rightarrow> string" where
  "csv_header step_metric cols = str_join '','' (step_metric # cols)"

text \<open>What has been written to the metric file of a group.\<close>

definition csv_content :: "'c logger \<Rightarrow> string \<Rightarrow> string option" where
  "csv_content L grp =
     (case self_metrics_files L of
        None \<Rightarrow> None
      | Some files \<Rightarrow> map_option fh_written (map_of files grp))"

text \<open>\<^verbatim>\<open>self._summary[group].get(key)\<close>, where the summary has the group.\<close>

definition summary_value :: "'c logger \<Rightarrow> string \<Rightarrow> string \<Rightarrow> rat option option" where
  "summary_value L grp key =
     (case self_summary L of
        None \<Rightarrow> None
      | Some summary \<Rightarrow> (case map_of summary grp of None \<Rightarrow> None | Some sg \<Rightarrow> map_of sg key))"

text \<open>The metric file of a group is still open: \<^verbatim>\<open>finish\<close> has not closed it.\<close>

definition csv_open :: "'c logger \<Rightarrow> string \<Rightarrow> bool" where
  "csv_open L grp =
     (case self_metrics_files L of
        None \<Rightarrow> False
      | Some files \<Rightarrow> (case map_of files grp of None \<Rightarrow> False | Some f \<Rightarrow> \<not> fh_closed f))"

text \<open>
  The path of the metric file of a group in a run directory (lines 230 and 275):
  \<^verbatim>\<open>join_paths(join_paths(run_dir, "metrics"), f"{group}.csv")\<close>.
\<close>

definition csv_path :: "path \<Rightarrow> string \<Rightarrow> path" where
  "csv_path run_dir grp = join_paths2 (join_paths2 run_dir ''metrics'') (grp @ ''.csv'')"

text \<open>What reading a path as text gives: the text of the file there, if there is one.\<close>

definition read_text :: "'c world \<Rightarrow> path \<Rightarrow> string option" where
  "read_text w p = (case map_of (fs w) p of Some (File (Text s)) \<Rightarrow> Some s | _ \<Rightarrow> None)"

text \<open>
  A logger of a run directory between \<^verbatim>\<open>_setup_local\<close> and \<^verbatim>\<open>finish\<close>: its paths are
  those of the run directory, and the metric file of each group is open at the path of
  the group.
\<close>

definition csv_files_open :: "path \<Rightarrow> 'c logger \<Rightarrow> bool" where
  "csv_files_open run_dir L =
     (self_run_dir L = Some run_dir
      \<and> self_summary_path L = Some (join_paths2 run_dir ''summary.json'')
      \<and> (case self_metrics_files L of
            None \<Rightarrow> False
          | Some files \<Rightarrow>
              list_all (\<lambda>(g, f). fh_path f = csv_path run_dir g \<and> \<not> fh_closed f) files))"

text \<open>The part of a record that belongs to a group: its step metric and its columns.\<close>

definition registered_part :: "string \<Rightarrow> string list \<Rightarrow> (string, rat) dict \<Rightarrow> (string, rat) dict" where
  "registered_part step_metric cols d = filter (\<lambda>(k, v). k = step_metric \<or> k \<in> set cols) d"

text \<open>The records of the calls of \<^verbatim>\<open>log\<close> for a group that returned without raising.\<close>

fun logged_records :: "string \<Rightarrow> call list \<Rightarrow> error option list \<Rightarrow> (string, rat) dict list" where
  "logged_records grp (Log d g check_keys # cs) (None # rs) =
     (if g = grp then d # logged_records grp cs rs else logged_records grp cs rs)"
| "logged_records grp (c # cs) (r # rs) = logged_records grp cs rs"
| "logged_records grp _ _ = []"

text \<open>
  The metric names of a group in the order the caller gave them, without the step
  metric and without repetitions: the column order the specification states.
\<close>

definition insertion_order :: "string list \<Rightarrow> string \<Rightarrow> string list" where
  "insertion_order metrics_arr step_metric = filter (\<lambda>m. m \<noteq> step_metric) (uniq metrics_arr)"

subsection \<open>The run of the source's own test (logger.py lines 604-622)\<close>

text \<open>A world with nothing in the current directory, and one with the base directory of the test.\<close>

definition empty_world :: "unit world" where
  "empty_world = \<lparr>fs = [], stdout = [], wandb_calls = [], wandb_run_dir = ''wandb/run''\<rparr>"

definition test_world :: "unit world" where
  "test_world = empty_world\<lparr>fs := [(''debug_data'', Dir)]\<rparr>"

definition test_args :: "unit init_args" where
  "test_args =
     \<lparr>arg_log_mode = ''local'',
      arg_metrics = [(''train'', (''step'', [''metric1'', ''metric2'']))],
      arg_name = ''debug'', arg_job_type = None, arg_project = None, arg_reinit = True,
      arg_group = None, arg_tags = None, arg_entity = None, arg_notes = None,
      arg_config = None, arg_bin_size = BinNone, arg_wandb_mode = ''online'',
      arg_local_base_dir = Some ''debug_data'', arg_is_sub_logger = False,
      arg_sub_loggers = None\<rparr>"

definition log_d :: "(string, rat) dict" where
  "log_d = [(''step'', 1), (''metric1'', 10)]"

text \<open>
  Python's \<^verbatim>\<open>str\<close> on an \<^verbatim>\<open>int\<close>, the instance of \<open>str\<close> in the examples (their
  values are integers): the decimal digits, after a minus sign for a negative number.
\<close>

fun dec_digits :: "nat \<Rightarrow> nat \<Rightarrow> string" where
  "dec_digits 0 n = []"
| "dec_digits (Suc fuel) n =
     (if n < 10 then [char_of (48 + n)]
      else dec_digits fuel (n div 10) @ [char_of (48 + n mod 10)])"

definition str_int :: "rat \<Rightarrow> string" where
  "str_int q =
     (let i = \<lfloor>q\<rfloor>; n = nat \<bar>i\<bar>
      in (if i < 0 then ''-'' else []) @ dec_digits (Suc n) n)"

section \<open>Properties\<close>

subsection \<open>Facts about the world and the tables\<close>

lemma fs_print [simp]: "fs (print s w) = fs w"
  by (simp add: print_def)

lemma wandb_calls_print [simp]: "wandb_calls (print s w) = wandb_calls w"
  by (simp add: print_def)

lemma join_paths_literal:
  "b \<noteq> [] \<Longrightarrow> join_paths [Some a, Some b] = Inr (join_paths2 a b)"
  by (simp add: join_paths_def join_paths2_def)

lemma in_keys_iff: "k \<in> set (dict_keys d) \<longleftrightarrow> map_of d k \<noteq> None"
  by (simp add: dict_keys_def map_of_eq_None_iff)

lemma keys_update_present:
  "k \<in> set (dict_keys d) \<Longrightarrow> dict_keys (AList.update k v d) = dict_keys d"
  by (simp add: dict_keys_def update_keys)

lemma map_of_fold_copy:
  "map_of (fold (\<lambda>key to. AList.update key (g key) to) ks to) k
     = (if k \<in> set ks then Some (g k) else map_of to k)"
  by (induction ks arbitrary: to) (auto simp: update_conv')

lemma map_of_copy_to_dict:
  "map_of (copy_to_dict d to) k
     = (if k \<in> set (dict_keys d) then Some (map_of d k) else map_of to k)"
  by (simp add: copy_to_dict_def map_of_fold_copy)

lemma str_join_Cons: "xs \<noteq> [] \<Longrightarrow> str_join sep (x # xs) = x @ sep @ str_join sep xs"
  by (cases xs) simp_all

lemma local_logger_entries:
  assumes "local_logger L" and "map_of (self_metrics L) grp = Some ms"
  shows "grp \<in> set (dict_keys (self_metrics L))"
    and "ms \<noteq> []"
    and "\<exists>step_metric. map_of (self_step_metrics L) grp = Some step_metric"
    and "\<exists>summary sg. self_summary L = Some summary \<and> map_of summary grp = Some sg"
    and "\<exists>files f. self_metrics_files L = Some files \<and> map_of files grp = Some f"
proof -
  show k: "grp \<in> set (dict_keys (self_metrics L))"
    using assms(2) by (simp add: in_keys_iff)
  from assms(2) have "(grp, ms) \<in> set (self_metrics L)"
    by (rule map_of_SomeD)
  with assms(1) show "ms \<noteq> []"
    by (auto simp: local_logger_def list_all_iff)
  from k assms(1) have "grp \<in> set (dict_keys (self_step_metrics L))"
    by (simp add: local_logger_def)
  then show "\<exists>step_metric. map_of (self_step_metrics L) grp = Some step_metric"
    by (simp add: in_keys_iff)
  from assms(1) obtain summary where s: "self_summary L = Some summary"
    and "dict_keys summary = dict_keys (self_metrics L)"
    by (auto simp: local_logger_def split: option.splits)
  with k have "grp \<in> set (dict_keys summary)" by simp
  with s show "\<exists>summary sg. self_summary L = Some summary \<and> map_of summary grp = Some sg"
    by (auto simp: in_keys_iff)
  from assms(1) obtain files where f: "self_metrics_files L = Some files"
    and "dict_keys files = dict_keys (self_metrics L)"
    by (auto simp: local_logger_def split: option.splits)
  with k have "grp \<in> set (dict_keys files)" by simp
  with f show "\<exists>files f. self_metrics_files L = Some files \<and> map_of files grp = Some f"
    by (auto simp: in_keys_iff)
qed

lemma to_row_eq:
  assumes "map_of (self_metrics L) grp = Some ms" and "ms \<noteq> []"
    and "map_of (self_step_metrics L) grp = Some step_metric"
  shows "to_row str d grp False L =
           (if step_metric \<in> set (dict_keys d) then Inr (csv_row str step_metric ms d)
            else Inl MissingStepMetricError)"
  using assms
  by (auto simp: to_row_def getitem_def csv_row_def csv_field_def in_keys_iff str_join_Cons
           cong: map_cong split: option.splits)

lemma log_local_logger:
  assumes L: "local_logger L"
    and ms: "map_of (self_metrics L) grp = Some ms"
    and st: "map_of (self_step_metrics L) grp = Some step_metric"
    and su: "self_summary L = Some summary" "map_of summary grp = Some sg"
    and fi: "self_metrics_files L = Some files" "map_of files grp = Some f"
  shows "Logger_log str d grp False (L, w) =
           (let L1 = L\<lparr>self_summary := Some (AList.update grp (copy_to_dict d sg) summary)\<rparr>
            in if step_metric \<notin> set (dict_keys d) then (Some MissingStepMetricError, L1, w)
               else if fh_closed f then (Some ClosedFileError, L1, w)
               else (None,
                     L1\<lparr>self_metrics_files :=
                          Some (AList.update grp
                                  (f\<lparr>fh_written := fh_written f @ CHR 0x0A # csv_row str step_metric ms d\<rparr>)
                                  files)\<rparr>, w))"
proof -
  have en: "self_is_enabled L" "self_log_mode L = LOCAL"
    using L by (simp_all add: local_logger_def)
  have k: "grp \<in> set (dict_keys (self_metrics L))" and ne: "ms \<noteq> []"
    using local_logger_entries [OF L ms] by simp_all
  let ?L1 = "L\<lparr>self_summary := Some (AList.update grp (copy_to_dict d sg) summary)\<rparr>"
  have row: "to_row str d grp False ?L1 =
           (if step_metric \<in> set (dict_keys d) then Inr (csv_row str step_metric ms d)
            else Inl MissingStepMetricError)"
    by (rule to_row_eq) (simp_all add: ms st ne)
  show ?thesis
    using en k su fi
    by (simp add: Logger_log_def log_local_def getitem_def row fh_write_def Let_def)
qed

lemma map_of_registered_part:
  "map_of (registered_part step_metric cols d) k
     = (if k = step_metric \<or> k \<in> set cols then map_of d k else None)"
  by (induction d) (auto simp: registered_part_def)

lemma csv_row_registered_part:
  "csv_row str step_metric cols (registered_part step_metric cols d) = csv_row str step_metric cols d"
proof -
  have "map (csv_field str (registered_part step_metric cols d)) (step_metric # cols)
          = map (csv_field str d) (step_metric # cols)"
    by (rule map_cong) (auto simp: csv_field_def map_of_registered_part)
  then show ?thesis
    by (simp only: csv_row_def)
qed

lemma check_keys_unfold:
  assumes "self_is_enabled L"
    and "map_of (self_metrics L) grp = Some ms"
    and "map_of (self_step_metrics L) grp = Some step_metric"
  shows "Logger_log str d grp True (L, w) =
           (if set (dict_keys d) - {step_metric} - set ms \<noteq> {}
            then (Some (UnregisteredKeyError (set (dict_keys d) - {step_metric} - set ms)), L, w)
            else Logger_log str d grp False (L, w))"
proof -
  have "grp \<in> set (dict_keys (self_metrics L))"
    using assms(2) by (simp add: in_keys_iff)
  then show ?thesis
    using assms by (simp add: Logger_log_def getitem_def Let_def)
qed

subsection \<open>What the constructor leaves in local mode\<close>

lemma open_w_result:
  "open_w p w = Inr (f, w1) \<Longrightarrow> f = \<lparr>fh_path = p, fh_written = [], fh_closed = False\<rparr>"
  by (auto simp: open_w_def split: prod.splits option.splits)


lemma setup_metric_files_frame:
  "setup_metric_files gs (L, w) = (r, L', w') \<Longrightarrow>
     L' = L\<lparr>self_metrics_file_paths := self_metrics_file_paths L',
            self_metrics_files := self_metrics_files L'\<rparr>"
proof (induction gs arbitrary: L w)
  case Nil
  then show ?case by simp
next
  case (Cons g gs)
  show ?case
  proof (cases "self_metrics_dir L")
    case None
    with Cons.prems show ?thesis by simp
  next
    case md: (Some metrics_dir)
    show ?thesis
    proof (cases "self_metrics_file_paths L")
      case None
      with Cons.prems md show ?thesis by simp
    next
      case pa: (Some paths)
      show ?thesis
      proof (cases "self_metrics_files L")
        case None
        with Cons.prems md pa show ?thesis by simp
      next
        case fi: (Some files)
        from Cons.prems md pa fi show ?thesis
          by (auto simp: Let_def getitem_def fh_write_def
                   split: option.splits if_splits sum.splits dest!: Cons.IH)
      qed
    qed
  qed
qed

lemma keys_update_absent:
  "k \<notin> set (dict_keys d) \<Longrightarrow> dict_keys (AList.update k v d) = dict_keys d @ [k]"
  by (simp add: dict_keys_def update_keys)


lemma setup_metric_files_success:
  assumes "setup_metric_files gs (L, w) = (None, L', w')"
    and "self_metrics_files L = Some files" and "self_metrics_dir L = Some metrics_dir"
    and "distinct gs" and "set gs \<inter> set (dict_keys files) = {}"
  shows "\<exists>files'. self_metrics_files L' = Some files'
           \<and> dict_keys files' = dict_keys files @ gs
           \<and> (\<forall>g. g \<notin> set gs \<longrightarrow> map_of files' g = map_of files g)
           \<and> (\<forall>g\<in>set gs. \<exists>st ms f.
                  map_of (self_step_metrics L) g = Some st \<and> map_of (self_metrics L) g = Some ms
                  \<and> ms \<noteq> [] \<and> map_of files' g = Some f
                  \<and> fh_path f = join_paths2 metrics_dir (g @ ''.csv'')
                  \<and> fh_written f = st @ '','' @ str_join '','' ms \<and> \<not> fh_closed f)"
  using assms
proof (induction gs arbitrary: L w files)
  case Nil
  then show ?case by simp
next
  case (Cons g gs)
  note md = Cons.prems(3)
  from Cons.prems(1) obtain paths
    where v: "self_metrics_file_paths L = Some paths"
    by (auto split: option.splits)
  note fi = Cons.prems(2)
  let ?p = "join_paths2 metrics_dir (g @ ''.csv'')"
  from Cons.prems(1) md v fi obtain f0 w1 where o: "open_w ?p w = Inr (f0, w1)"
    by (auto simp: Let_def split: sum.splits)
  note f0 = open_w_result [OF o]
  from Cons.prems(1) md v fi o obtain ms where ms: "map_of (self_metrics L) g = Some ms" "ms \<noteq> []"
    by (auto simp: Let_def getitem_def split: option.splits if_splits)
  from Cons.prems(1) md v fi o ms obtain st where st: "map_of (self_step_metrics L) g = Some st"
    by (auto simp: Let_def getitem_def split: option.splits if_splits)
  let ?f = "\<lparr>fh_path = ?p, fh_written = st @ '','' @ str_join '','' ms, fh_closed = False\<rparr>"
  let ?files1 = "AList.update g ?f files"
  let ?L1 = "L\<lparr>self_metrics_file_paths := Some (AList.update g ?p paths),
               self_metrics_files := Some ?files1\<rparr>"
  from Cons.prems(1) md v fi o f0 ms st
  have rec: "setup_metric_files gs (?L1, w1) = (None, L', w')"
    by (simp add: Let_def getitem_def fh_write_def)
  have g: "g \<notin> set (dict_keys files)" "g \<notin> set gs"
    using Cons.prems(4,5) by auto
  have k1: "dict_keys ?files1 = dict_keys files @ [g]"
    using g by (simp add: keys_update_absent)
  have "set gs \<inter> set (dict_keys ?files1) = {}"
    using Cons.prems(4,5) k1 by auto
  from Cons.IH [OF rec _ _ _ this] Cons.prems(4) md
  obtain files' where r: "self_metrics_files L' = Some files'"
      "dict_keys files' = dict_keys ?files1 @ gs"
      "\<forall>h. h \<notin> set gs \<longrightarrow> map_of files' h = map_of ?files1 h"
      "\<forall>h\<in>set gs. \<exists>st ms f.
          map_of (self_step_metrics ?L1) h = Some st \<and> map_of (self_metrics ?L1) h = Some ms
          \<and> ms \<noteq> [] \<and> map_of files' h = Some f
          \<and> fh_path f = join_paths2 metrics_dir (h @ ''.csv'')
          \<and> fh_written f = st @ '','' @ str_join '','' ms \<and> \<not> fh_closed f"
    by auto
  have "map_of files' g = Some ?f"
    using r(3) g by (simp add: update_conv')
  with r k1 ms st show ?case
    by (auto simp: update_conv')
qed

lemma files_frame_fields:
  "L = L2\<lparr>self_metrics_file_paths := p, self_metrics_files := f\<rparr> \<Longrightarrow>
     same_tables L2 L \<and> self_summary L = self_summary L2 \<and> self_metric_n L = self_metric_n L2
     \<and> self_run_dir L = self_run_dir L2 \<and> self_summary_path L = self_summary_path L2"
  by (simp add: same_tables_def)

lemma setup_local_success:
  assumes "setup_local reinit (L1, w) = (None, L, w')"
    and "distinct (self_metric_groups L1)"
  shows "same_tables L1 L \<and> self_summary L = self_summary L1
         \<and> self_metric_n L = self_metric_n L1
         \<and> (\<exists>run_dir files.
               join_paths [self_local_base_dir L1, Some (md_name (self_meta L1))] = Inr run_dir
               \<and> self_run_dir L = Some run_dir
               \<and> self_summary_path L = Some (join_paths2 run_dir ''summary.json'')
               \<and> self_metrics_files L = Some files
               \<and> dict_keys files = self_metric_groups L1
               \<and> (\<forall>g\<in>set (self_metric_groups L1). \<exists>st ms f.
                     map_of (self_step_metrics L1) g = Some st \<and> map_of (self_metrics L1) g = Some ms
                     \<and> ms \<noteq> [] \<and> map_of files g = Some f
                     \<and> fh_path f = join_paths2 (join_paths2 run_dir ''metrics'') (g @ ''.csv'')
                     \<and> fh_written f = st @ '','' @ str_join '','' ms \<and> \<not> fh_closed f))"
proof -
  from assms(1) obtain run_dir L2 w5 w6 where
    rd: "join_paths [self_local_base_dir L1, Some (md_name (self_meta L1))] = Inr run_dir"
    and s: "setup_metric_files (self_metric_groups L1) (L2, w5) = (None, L, w6)"
    and f2: "self_metrics_files L2 = Some []"
      "self_metrics_dir L2 = Some (join_paths2 run_dir ''metrics'')"
      "self_run_dir L2 = Some run_dir"
      "self_summary_path L2 = Some (join_paths2 run_dir ''summary.json'')"
    and t: "same_tables L1 L2" "self_summary L2 = self_summary L1" "self_metric_n L2 = self_metric_n L1"
    by (auto simp: setup_local_def Let_def same_tables_def
             split: if_splits sum.splits prod.splits option.splits)
  from setup_metric_files_frame [OF s]
  have fr: "L = L2\<lparr>self_metrics_file_paths := self_metrics_file_paths L,
                   self_metrics_files := self_metrics_files L\<rparr>" .
  have t2: "same_tables L2 L \<and> self_summary L = self_summary L2 \<and> self_metric_n L = self_metric_n L2
            \<and> self_run_dir L = self_run_dir L2 \<and> self_summary_path L = self_summary_path L2"
    by (rule files_frame_fields [OF fr])
  from setup_metric_files_success [OF s f2(1,2) assms(2)] t t2 rd f2
  show ?thesis
    by (auto simp: same_tables_def dict_keys_def)
qed

lemma update_set_cases:
  "(k', v') \<in> set (AList.update k v al) \<Longrightarrow> (k', v') = (k, v) \<or> (k', v') \<in> set al"
  by (induction al) (auto split: if_splits)

lemma dict_comp_acc_values:
  assumes "dict_comp_acc f ks acc = Inr d"
    and "\<forall>(k, v)\<in>set acc. P v" and "\<forall>k v. f k = Inr v \<longrightarrow> P v"
  shows "\<forall>(k, v)\<in>set d. P v"
  using assms
proof (induction ks arbitrary: acc)
  case Nil
  then show ?case by simp
next
  case (Cons k ks)
  from Cons.prems(1) obtain v where v: "f k = Inr v"
    and r: "dict_comp_acc f ks (AList.update k v acc) = Inr d"
    by (auto split: sum.splits)
  have "\<forall>(k', v')\<in>set (AList.update k v acc). P v'"
    using Cons.prems(2,3) v by (auto dest: update_set_cases)
  from Cons.IH [OF r this Cons.prems(3)] show ?case .
qed

lemma init_summary_keys: "dict_keys (init_summary metrics step_metrics) = dict_keys metrics"
proof -
  have "dict_keys (fold (\<lambda>(metric_group, step_metric) summary.
             case map_of summary metric_group of
               None \<Rightarrow> summary
             | Some sg \<Rightarrow> AList.update metric_group (AList.update step_metric None sg) summary)
          xs s) = dict_keys s" for xs and s :: summary_t
    by (induction xs arbitrary: s)
       (auto simp: keys_update_present in_keys_iff split: option.splits)
  then show ?thesis
    by (simp add: init_summary_def dict_keys_def comp_def case_prod_unfold)
qed

lemma Logger_setup_local:
  assumes "Logger_setup None (L0, w) = (None, L, w')"
    and "self_is_enabled L0" and "self_log_mode L0 = LOCAL"
    and "distinct (self_metric_groups L0)" and "self_metric_n L0 = None"
  shows "same_tables L0 L \<and> self_summary L = self_summary L0
         \<and> (case self_metric_n L of
               None \<Rightarrow> True
             | Some metric_n \<Rightarrow>
                 list_all (\<lambda>(g, c). case c of CDict _ \<Rightarrow> True | CInt _ \<Rightarrow> False) metric_n)
         \<and> (\<exists>run_dir files.
               join_paths [self_local_base_dir L0, Some (md_name (self_meta L0))] = Inr run_dir
               \<and> self_run_dir L = Some run_dir
               \<and> self_summary_path L = Some (join_paths2 run_dir ''summary.json'')
               \<and> self_metrics_files L = Some files
               \<and> dict_keys files = self_metric_groups L0
               \<and> (\<forall>g\<in>set (self_metric_groups L0). \<exists>st ms f.
                     map_of (self_step_metrics L0) g = Some st \<and> map_of (self_metrics L0) g = Some ms
                     \<and> ms \<noteq> [] \<and> map_of files g = Some f
                     \<and> fh_path f = join_paths2 (join_paths2 run_dir ''metrics'') (g @ ''.csv'')
                     \<and> fh_written f = st @ '','' @ str_join '','' ms \<and> \<not> fh_closed f))"
proof -
  let ?isd = "\<lambda>c. case c of CDict _ \<Rightarrow> True | CInt _ \<Rightarrow> False"
  from assms(1,2,3) obtain L1 where
    s: "setup_local (self_reinit L1) (L1, w) = (None, L, w')"
    and c: "L1 = L0 \<or> (\<exists>ra mn. L1 = L0\<lparr>self_metric_roll_avg := Some ra, self_metric_n := Some mn\<rparr>
              \<and> dict_comp (\<lambda>metric_group.
                     map_sum id (\<lambda>ms. CDict (map (\<lambda>metric. (metric, 0::int)) ms))
                       (getitem (self_metrics L0) metric_group))
                   (self_metric_groups L0) = Inr mn)"
    by (auto simp: Logger_setup_def Let_def split: if_splits sum.splits prod.splits option.splits)
  have t: "same_tables L0 L1" "self_summary L1 = self_summary L0"
    "self_local_base_dir L1 = self_local_base_dir L0" "self_meta L1 = self_meta L0"
    using c by (auto simp: same_tables_def)
  have n: "case self_metric_n L1 of None \<Rightarrow> True
           | Some metric_n \<Rightarrow> list_all (\<lambda>(g, c). ?isd c) metric_n"
  proof -
    { fix ra mn
      assume "dict_comp (\<lambda>metric_group.
                     map_sum id (\<lambda>ms. CDict (map (\<lambda>metric. (metric, 0::int)) ms))
                       (getitem (self_metrics L0) metric_group))
                   (self_metric_groups L0) = Inr mn"
      then have "\<forall>(k, v)\<in>set mn. ?isd v"
        unfolding dict_comp_def
        by (rule dict_comp_acc_values) (auto simp: getitem_def split: option.splits)
      then have "list_all (\<lambda>(g, c). ?isd c) mn"
        by (auto simp: list_all_iff)
    }
    with c assms(5) show ?thesis by auto
  qed
  have d: "distinct (self_metric_groups L1)"
    using t assms(4) by (simp add: same_tables_def)
  from setup_local_success [OF s d] t n show ?thesis
    by (auto simp: same_tables_def)
qed

lemma map_of_metrics_table:
  "map_of (map (\<lambda>(g, tup). (g, F tup)) m) g = map_option F (map_of m g)"
  by (induction m) auto

lemma init_local:
  assumes "Logger_init set_iter a w = (Inr L, w')" and "arg_log_mode a = ''local''"
    and "distinct (dict_keys (arg_metrics a))"
  shows "local_logger L"
    and "self_metrics L = map (\<lambda>(g, tup). (g, list_of_set_difference set_iter (snd tup) (fst tup)))
                              (arg_metrics a)"
    and "self_step_metrics L = map (\<lambda>(g, tup). (g, fst tup)) (arg_metrics a)"
    and "map_of (arg_metrics a) grp = Some (st, ms_in) \<Longrightarrow>
           csv_content L grp
             = Some (st @ '','' @ str_join '','' (list_of_set_difference set_iter ms_in st))
           \<and> csv_open L grp"
    and "join_paths [arg_local_base_dir a, Some (arg_name a)] = Inr rd \<Longrightarrow> csv_files_open rd L"
    and "\<not> self_is_finished L"
proof -
  from assms(1,2) obtain bs w1 where
    s: "Logger_setup None (init_attributes set_iter a LOCAL bs, w1) = (None, L, w')"
    by (auto simp: Logger_init_def parse_log_mode_def Let_def init_attributes_def
             split: if_splits sum.splits prod.splits option.splits)
  let ?L0 = "init_attributes set_iter a LOCAL bs"
  let ?M = "map (\<lambda>(g, tup). (g, list_of_set_difference set_iter (snd tup) (fst tup))) (arg_metrics a)"
  let ?S = "map (\<lambda>(g, tup). (g, fst tup)) (arg_metrics a)"
  have f0: "self_is_enabled ?L0" "self_log_mode ?L0 = LOCAL"
    "self_metric_groups ?L0 = dict_keys (arg_metrics a)" "self_metric_n ?L0 = None"
    "self_metrics ?L0 = ?M" "self_step_metrics ?L0 = ?S"
    "self_summary ?L0 = Some (init_summary ?M ?S)"
    "self_local_base_dir ?L0 = arg_local_base_dir a" "md_name (self_meta ?L0) = arg_name a"
    "\<not> self_is_finished ?L0"
    by (simp_all add: init_attributes_def Let_def)
  have kM: "dict_keys ?M = dict_keys (arg_metrics a)" and kS: "dict_keys ?S = dict_keys (arg_metrics a)"
    by (simp_all add: dict_keys_def comp_def case_prod_unfold)
  from Logger_setup_local [OF s f0(1,2)] assms(3) f0
  obtain run_dir files where
    t: "same_tables ?L0 L" "self_summary L = Some (init_summary ?M ?S)"
    and n: "case self_metric_n L of None \<Rightarrow> True
            | Some metric_n \<Rightarrow>
                list_all (\<lambda>(g, c). case c of CDict _ \<Rightarrow> True | CInt _ \<Rightarrow> False) metric_n"
    and rd: "join_paths [arg_local_base_dir a, Some (arg_name a)] = Inr run_dir"
      "self_run_dir L = Some run_dir" "self_summary_path L = Some (join_paths2 run_dir ''summary.json'')"
    and fi: "self_metrics_files L = Some files" "dict_keys files = dict_keys (arg_metrics a)"
    and h: "\<forall>g\<in>set (dict_keys (arg_metrics a)). \<exists>st ms f.
              map_of ?S g = Some st \<and> map_of ?M g = Some ms
              \<and> ms \<noteq> [] \<and> map_of files g = Some f
              \<and> fh_path f = join_paths2 (join_paths2 run_dir ''metrics'') (g @ ''.csv'')
              \<and> fh_written f = st @ '','' @ str_join '','' ms \<and> \<not> fh_closed f"
    by auto
  show m: "self_metrics L = ?M" and st: "self_step_metrics L = ?S"
    using t f0 by (simp_all add: same_tables_def)
  have ne: "list_all (\<lambda>(g, ms). ms \<noteq> []) ?M"
  proof -
    { fix g ms assume "(g, ms) \<in> set ?M"
      moreover have "distinct (map fst ?M)"
        using assms(3) kM unfolding dict_keys_def by (simp only:)
      ultimately have "map_of ?M g = Some ms" by simp
      moreover from \<open>(g, ms) \<in> set ?M\<close> have "g \<in> set (dict_keys (arg_metrics a))"
        by (force simp: dict_keys_def)
      ultimately have "ms \<noteq> []" using h by auto
    }
    then show ?thesis unfolding list_all_iff by blast
  qed
  show "local_logger L"
    using t f0 n fi ne assms(3) kM kS m st
    by (simp add: local_logger_def same_tables_def init_summary_keys)
  show "csv_content L grp
          = Some (st @ '','' @ str_join '','' (list_of_set_difference set_iter ms_in st))
        \<and> csv_open L grp"
    if g: "map_of (arg_metrics a) grp = Some (st, ms_in)"
  proof -
    from g have "grp \<in> set (dict_keys (arg_metrics a))"
      by (simp add: in_keys_iff)
    with h obtain st' ms f where
      "map_of ?S grp = Some st'" "map_of ?M grp = Some ms" "map_of files grp = Some f"
      "fh_written f = st' @ '','' @ str_join '','' ms" "\<not> fh_closed f"
      by blast
    with g fi show ?thesis
      by (simp add: map_of_metrics_table csv_content_def csv_open_def)
  qed
  show "\<not> self_is_finished L"
    using t f0 by (simp add: same_tables_def)
  show "csv_files_open rd L" if j: "join_paths [arg_local_base_dir a, Some (arg_name a)] = Inr rd"
  proof -
    from j rd have e: "run_dir = rd" by simp
    have "fh_path f = csv_path rd g \<and> \<not> fh_closed f" if m: "(g, f) \<in> set files" for g f
    proof -
      have d: "distinct (map fst files)"
        using fi(2) assms(3) by (simp add: dict_keys_def)
      from m have k: "g \<in> set (dict_keys (arg_metrics a))"
        unfolding fi(2) [symmetric] by (force simp: dict_keys_def)
      from d m have "map_of files g = Some f" by simp
      with h k e show ?thesis
        by (auto simp: csv_path_def)
    qed
    with rd fi e show ?thesis
      by (auto simp: csv_files_open_def list_all_iff)
  qed
qed

subsection \<open>Disabled mode\<close>

lemma init_disabled:
  assumes "Logger_init set_iter a w0 = (Inr L, w1)" and "arg_log_mode a = ''disabled''"
  shows "\<not> self_is_enabled L \<and> fs w1 = fs w0 \<and> wandb_calls w1 = wandb_calls w0"
  using assms
  by (auto simp: Logger_init_def parse_log_mode_def init_attributes_def Let_def
           split: if_splits sum.splits)

lemma perform_disabled:
  "\<not> self_is_enabled L \<Longrightarrow> perform str c (L, w) = (None, L, w)"
  by (cases c)
     (simp_all add: Logger_log_def Logger_log_binned_def Logger_log_file_def
        Logger_log_summary_def Logger_finish_def)

text \<open>
  Claim C8. A logger constructed with the mode \<^verbatim>\<open>disabled\<close> has touched neither the
  directory tree nor the remote service, and every later call (\<^verbatim>\<open>log\<close>, \<^verbatim>\<open>log_binned\<close>,
  \<^verbatim>\<open>log_file\<close>, \<^verbatim>\<open>log_summary\<close>, \<^verbatim>\<open>finish\<close>), whatever its arguments, raises nothing and
  leaves the logger and the world exactly as they were.
\<close>

theorem disabled_is_noop:
  assumes "Logger_init set_iter a w0 = (Inr L, w1)" and "arg_log_mode a = ''disabled''"
  shows "fs w1 = fs w0 \<and> wandb_calls w1 = wandb_calls w0
         \<and> (\<forall>str c w. perform str c (L, w) = (None, L, w))"
  using init_disabled [OF assms] perform_disabled by blast

theorem disabled_is_noop_witness:
  "arg_log_mode (test_args\<lparr>arg_log_mode := ''disabled''\<rparr>) = ''disabled''
   \<and> (case Logger_init id (test_args\<lparr>arg_log_mode := ''disabled''\<rparr>) empty_world of
         (Inl e, w1) \<Rightarrow> False
       | (Inr L, w1) \<Rightarrow>
           fs w1 = fs empty_world \<and> wandb_calls w1 = wandb_calls empty_world
           \<and> perform str_int (Log log_d ''eval'' True) (L, w1) = (None, L, w1)
           \<and> perform str_int (LogBinned log_d ''train'') (L, w1) = (None, L, w1)
           \<and> perform str_int Finish (L, w1) = (None, L, w1))"
proof -
  let ?a = "test_args\<lparr>arg_log_mode := ''disabled''\<rparr>"
  have m: "arg_log_mode ?a = ''disabled''"
    by simp
  have "case Logger_init id ?a empty_world of (Inl e, w1) \<Rightarrow> False | (Inr L, w1) \<Rightarrow> True"
    by code_simp
  then obtain L w1 where c: "Logger_init id ?a empty_world = (Inr L, w1)"
    by (auto split: prod.splits sum.splits)
  from disabled_is_noop [OF c m] show ?thesis
    using c m by simp
qed

subsection \<open>Unknown groups\<close>

text \<open>
  Claim C5. On an enabled logger, \<^verbatim>\<open>log\<close> for a group that is not registered raises the
  unknown-group error, with or without the key check, and the logger (summary, metric
  files, bin accumulators) and the world are what they were before the call.
\<close>

theorem log_unknown_group:
  assumes "self_is_enabled L" and "grp \<notin> set (dict_keys (self_metrics L))"
  shows "Logger_log str d grp check_keys (L, w) = (Some UnknownGroupError, L, w)"
  using assms by (simp add: Logger_log_def)

theorem log_unknown_group_witness:
  "(case Logger_init id test_args test_world of
      (Inl e, w) \<Rightarrow> False
    | (Inr L, w) \<Rightarrow>
        self_is_enabled L \<and> ''eval'' \<notin> set (dict_keys (self_metrics L))
        \<and> Logger_log str_int log_d ''eval'' False (L, w) = (Some UnknownGroupError, L, w))"
proof -
  have "case Logger_init id test_args test_world of
          (Inl e, w) \<Rightarrow> False
        | (Inr L, w) \<Rightarrow> self_is_enabled L \<and> ''eval'' \<notin> set (dict_keys (self_metrics L))"
    by code_simp
  then show ?thesis
    using log_unknown_group [where grp = "''eval''" and str = str_int and d = log_d
                               and check_keys = False]
    by (auto split: prod.splits sum.splits)
qed

subsection \<open>Finishing twice\<close>

text \<open>
  Claim C2. The claim is that a second \<^verbatim>\<open>finish()\<close> raises. On the logger of the source's
  own test, in local mode, both calls of \<^verbatim>\<open>finish()\<close> return without raising: the flag
  the guard of line 572 reads is never set.
\<close>

theorem finish_twice_returns:
  "(case Logger_init id test_args test_world of
      (Inl e, w) \<Rightarrow> False
    | (Inr L, w) \<Rightarrow> fst (run str_int [Finish, Finish] (L, w)) = [None, None])"
  by code_simp

subsection \<open>Binned logging\<close>

text \<open>
  Claim C1. The claim is that three records for a bin size of 3 end in one call of
  \<^verbatim>\<open>log\<close> and a counter back at 0. On the logger of the source's test with a bin size
  of 3, each of three calls of \<^verbatim>\<open>log_binned\<close> with the same value for every metric raises
  TypeError at line 441, and the logger and the world stay as the constructor left them:
  no row is logged and no counter is assigned.
\<close>

theorem log_binned_raises_type_error:
  "(case Logger_init id (test_args\<lparr>arg_bin_size := BinInt 3\<rparr>) test_world of
      (Inl e, w) \<Rightarrow> False
    | (Inr L, w) \<Rightarrow>
        run str_int [LogBinned [(''metric1'', 5), (''metric2'', 5)] ''train'',
                     LogBinned [(''metric1'', 5), (''metric2'', 5)] ''train'',
                     LogBinned [(''metric1'', 5), (''metric2'', 5)] ''train''] (L, w)
          = ([Some TypeError, Some TypeError, Some TypeError], L, w))"
  by code_simp

subsection \<open>A record without the step metric\<close>

text \<open>
  Claim C10. In local mode, \<^verbatim>\<open>log\<close> of a record that lacks the step metric of its
  registered group raises (the ValueError of \<^verbatim>\<open>_to_row\<close>, line 499) and writes nothing
  to the metric files or to the world, but the record is in the summary of the group by
  then: every key of the record holds the record's value there, and the other keys hold
  what they held.
\<close>

theorem log_without_step_metric:
  assumes "local_logger L"
    and "map_of (self_step_metrics L) grp = Some step_metric"
    and "step_metric \<notin> set (dict_keys d)"
  shows "fst (Logger_log str d grp False (L, w)) = Some MissingStepMetricError
         \<and> snd (snd (Logger_log str d grp False (L, w))) = w
         \<and> self_metrics_files (fst (snd (Logger_log str d grp False (L, w)))) = self_metrics_files L
         \<and> (\<forall>k. summary_value (fst (snd (Logger_log str d grp False (L, w)))) grp k
                  = (if k \<in> set (dict_keys d) then Some (map_of d k) else summary_value L grp k))"
proof -
  have "grp \<in> set (dict_keys (self_step_metrics L))"
    using assms(2) by (simp add: in_keys_iff)
  then have "grp \<in> set (dict_keys (self_metrics L))"
    using assms(1) by (simp add: local_logger_def)
  then obtain ms where ms: "map_of (self_metrics L) grp = Some ms"
    by (auto simp: in_keys_iff)
  from local_logger_entries(4,5) [OF assms(1) ms]
  obtain summary sg files f where su: "self_summary L = Some summary" "map_of summary grp = Some sg"
    and fi: "self_metrics_files L = Some files" "map_of files grp = Some f"
    by blast
  show ?thesis
    using assms(3) su
    by (simp add: log_local_logger [OF assms(1) ms assms(2) su fi] Let_def summary_value_def
          update_conv' map_of_copy_to_dict)
qed

theorem log_without_step_metric_witness:
  "(case Logger_init id test_args test_world of
      (Inl e, w) \<Rightarrow> False
    | (Inr L, w) \<Rightarrow>
        local_logger L \<and> map_of (self_step_metrics L) ''train'' = Some ''step''
        \<and> ''step'' \<notin> set (dict_keys [(''metric1'', 10 :: rat)])
        \<and> fst (Logger_log str_int [(''metric1'', 10)] ''train'' False (L, w)) = Some MissingStepMetricError
        \<and> self_metrics_files (fst (snd (Logger_log str_int [(''metric1'', 10)] ''train'' False (L, w))))
            = self_metrics_files L
        \<and> summary_value L ''train'' ''metric1'' = Some None
        \<and> summary_value (fst (snd (Logger_log str_int [(''metric1'', 10)] ''train'' False (L, w))))
             ''train'' ''metric1'' = Some (Some 10))"
proof -
  have "case Logger_init id test_args test_world of
          (Inl e, w) \<Rightarrow> False
        | (Inr L, w) \<Rightarrow>
            local_logger L \<and> map_of (self_step_metrics L) ''train'' = Some ''step''
            \<and> ''step'' \<notin> set (dict_keys [(''metric1'', 10 :: rat)])
            \<and> summary_value L ''train'' ''metric1'' = Some None"
    by code_simp
  then obtain L w where c: "Logger_init id test_args test_world = (Inr L, w)"
    and h: "local_logger L" "map_of (self_step_metrics L) ''train'' = Some ''step''"
           "''step'' \<notin> set (dict_keys [(''metric1'', 10 :: rat)])"
    and s0: "summary_value L ''train'' ''metric1'' = Some None"
    by (auto split: prod.splits sum.splits)
  from log_without_step_metric [OF h, of str_int w] show ?thesis
    using c h s0 by (simp add: dict_keys_def)
qed

subsection \<open>Checking the keys of a record\<close>

text \<open>
  Claim C4. On a local-mode logger, for a registered group and a record with a key that
  is neither the step metric nor a metric of the group, \<^verbatim>\<open>log\<close> with the key check
  raises the unregistered-key error naming exactly those keys and changes nothing.
  Without the check the same call returns normally, for a record as the specification
  has it (it includes the step metric) on a logger still in use (\<^verbatim>\<open>finish\<close> has not
  closed the metric file of the group), and the row it appends is the row of the
  registered part of the record: the other keys leave no trace in it.
\<close>

theorem log_check_keys:
  assumes "local_logger L"
    and "map_of (self_metrics L) grp = Some ms"
    and "map_of (self_step_metrics L) grp = Some step_metric"
    and "set (dict_keys d) - {step_metric} - set ms \<noteq> {}"
  shows "Logger_log str d grp True (L, w)
           = (Some (UnregisteredKeyError (set (dict_keys d) - {step_metric} - set ms)), L, w)
         \<and> (step_metric \<in> set (dict_keys d) \<and> csv_open L grp \<longrightarrow>
              fst (Logger_log str d grp False (L, w)) = None
              \<and> csv_content (fst (snd (Logger_log str d grp False (L, w)))) grp
                  = map_option
                      (\<lambda>c. c @ CHR 0x0A # csv_row str step_metric ms (registered_part step_metric ms d))
                      (csv_content L grp))"
proof -
  have en: "self_is_enabled L"
    using assms(1) by (simp add: local_logger_def)
  from local_logger_entries(4,5) [OF assms(1,2)]
  obtain summary sg files f where su: "self_summary L = Some summary" "map_of summary grp = Some sg"
    and fi: "self_metrics_files L = Some files" "map_of files grp = Some f"
    by blast
  have a: "Logger_log str d grp True (L, w)
           = (Some (UnregisteredKeyError (set (dict_keys d) - {step_metric} - set ms)), L, w)"
    using assms(4) by (simp add: check_keys_unfold [OF en assms(2,3)])
  have b: "fst (Logger_log str d grp False (L, w)) = None
           \<and> csv_content (fst (snd (Logger_log str d grp False (L, w)))) grp
               = map_option
                   (\<lambda>c. c @ CHR 0x0A # csv_row str step_metric ms (registered_part step_metric ms d))
                   (csv_content L grp)"
    if "step_metric \<in> set (dict_keys d)" and "csv_open L grp"
    using that fi
    by (simp add: log_local_logger [OF assms(1,2,3) su fi] Let_def csv_open_def csv_content_def
          update_conv' csv_row_registered_part)
  from a b show ?thesis by blast
qed

theorem log_check_keys_witness:
  "(case Logger_init id test_args test_world of
      (Inl e, w) \<Rightarrow> False
    | (Inr L, w) \<Rightarrow>
        local_logger L
        \<and> map_of (self_metrics L) ''train'' = Some [''metric1'', ''metric2'']
        \<and> map_of (self_step_metrics L) ''train'' = Some ''step''
        \<and> set (dict_keys (log_d @ [(''loss'', 5)])) - {''step''} - set [''metric1'', ''metric2''] \<noteq> {}
        \<and> ''step'' \<in> set (dict_keys (log_d @ [(''loss'', 5)]))
        \<and> csv_open L ''train''
        \<and> Logger_log str_int (log_d @ [(''loss'', 5)]) ''train'' True (L, w)
            = (Some (UnregisteredKeyError {''loss''}), L, w)
        \<and> fst (Logger_log str_int (log_d @ [(''loss'', 5)]) ''train'' False (L, w)) = None
        \<and> csv_content (fst (snd (Logger_log str_int (log_d @ [(''loss'', 5)]) ''train'' False (L, w))))
             ''train''
            = Some (''step,metric1,metric2'' @ [CHR 0x0A] @ ''1,10,''))"
proof -
  let ?d = "log_d @ [(''loss'', 5)]"
  have "case Logger_init id test_args test_world of
          (Inl e, w) \<Rightarrow> False
        | (Inr L, w) \<Rightarrow>
            local_logger L
            \<and> map_of (self_metrics L) ''train'' = Some [''metric1'', ''metric2'']
            \<and> map_of (self_step_metrics L) ''train'' = Some ''step''
            \<and> csv_open L ''train''
            \<and> csv_content L ''train'' = Some ''step,metric1,metric2''"
    by code_simp
  then obtain L w where c: "Logger_init id test_args test_world = (Inr L, w)"
    and h: "local_logger L" "map_of (self_metrics L) ''train'' = Some [''metric1'', ''metric2'']"
           "map_of (self_step_metrics L) ''train'' = Some ''step''"
    and o: "csv_open L ''train''" "csv_content L ''train'' = Some ''step,metric1,metric2''"
    by (auto split: prod.splits sum.splits)
  have k: "set (dict_keys ?d) - {''step''} - set [''metric1'', ''metric2''] = {''loss''}"
    by (auto simp: dict_keys_def log_d_def)
  then have b: "set (dict_keys ?d) - {''step''} - set [''metric1'', ''metric2''] \<noteq> {}"
    by simp
  have s: "''step'' \<in> set (dict_keys ?d)"
    by (simp add: dict_keys_def log_d_def)
  have r: "csv_row str_int ''step'' [''metric1'', ''metric2'']
             (registered_part ''step'' [''metric1'', ''metric2''] ?d) = ''1,10,''"
    by code_simp
  from log_check_keys [OF h b, of str_int w] show ?thesis
    using c h o s b k by (simp add: r)
qed

subsection \<open>What the methods keep in local mode\<close>

lemma log_binned_local_logger:
  assumes "local_logger L"
  shows "\<exists>e. Logger_log_binned str d grp (L, w) = (Some e, L, w)"
proof -
  have en: "self_is_enabled L" using assms by (simp add: local_logger_def)
  have n: "\<And>mn k. self_metric_n L = Some mn \<Longrightarrow> map_of mn grp \<noteq> Some (CInt k)"
  proof
    fix mn k assume a: "self_metric_n L = Some mn" "map_of mn grp = Some (CInt k)"
    then have "(grp, CInt k) \<in> set mn" by (auto dest: map_of_SomeD)
    with a(1) assms show False
      by (auto simp: local_logger_def list_all_iff)
  qed
  show ?thesis
    using en n
    by (auto simp: Logger_log_binned_def getitem_def Let_def
             split: option.splits sum.splits counter.splits)
qed

lemma close_all_entries:
  "close_all files w = (files', w') \<Longrightarrow>
     dict_keys files' = dict_keys files
     \<and> (\<forall>g. map_option fh_written (map_of files' g) = map_option fh_written (map_of files g))"
proof (induction files arbitrary: w files' w')
  case Nil
  then show ?case by simp
next
  case (Cons p files)
  obtain g f where p: "p = (g, f)" by (cases p)
  obtain f1 w1 where c: "fh_close f w = (f1, w1)" by (cases "fh_close f w")
  obtain rest w2 where r: "close_all files w1 = (rest, w2)" by (cases "close_all files w1")
  from c have fw: "fh_written f1 = fh_written f"
    by (auto simp: fh_close_def split: if_splits)
  from Cons.prems p c r have e: "files' = (g, f1) # rest"
    by simp
  from Cons.IH [OF r] e p fw show ?case
    by (auto simp: dict_keys_def)
qed

lemma finish_local_logger:
  assumes "local_logger L" and "Logger_finish (L, w) = (r, L', w')"
  shows "local_logger L' \<and> same_tables L L'
         \<and> (\<forall>g. csv_content L' g = csv_content L g)"
proof -
  from assms(1) obtain files where fi: "self_metrics_files L = Some files"
    "dict_keys files = dict_keys (self_metrics L)"
    by (auto simp: local_logger_def split: option.splits)
  have en: "self_is_enabled L" "self_log_mode L = LOCAL"
    using assms(1) by (simp_all add: local_logger_def)
  obtain files' w1 where c: "close_all files w = (files', w1)" by (cases "close_all files w")
  have L': "L' = L \<or> L' = L\<lparr>self_metrics_files := Some files'\<rparr>"
    using assms(2) en fi c
    by (auto simp: Logger_finish_def Logger_log_summary_def Let_def
             split: if_splits option.splits sum.splits prod.splits)
  from close_all_entries [OF c] fi assms(1) L' show ?thesis
    by (auto simp: local_logger_def same_tables_def csv_content_def split: option.splits)
qed

lemma log_local_logger_step:
  assumes L: "local_logger L" and r: "Logger_log str d grp check_keys (L, w) = (r, L', w')"
  shows "local_logger L' \<and> same_tables L L'
         \<and> (\<forall>g ms st. map_of (self_metrics L) g = Some ms \<and> map_of (self_step_metrics L) g = Some st
               \<longrightarrow> csv_content L' g
                   = (if r = None \<and> g = grp
                      then map_option (\<lambda>c. c @ CHR 0x0A # csv_row str st ms d) (csv_content L g)
                      else csv_content L g))"
proof (cases "grp \<in> set (dict_keys (self_metrics L))")
  case False
  have "self_is_enabled L" using L by (simp add: local_logger_def)
  with False have "Logger_log str d grp check_keys (L, w) = (Some UnknownGroupError, L, w)"
    by (simp add: Logger_log_def)
  with r L show ?thesis
    by (auto simp: same_tables_def)
next
  case True
  then obtain ms where ms: "map_of (self_metrics L) grp = Some ms"
    by (auto simp: in_keys_iff)
  from local_logger_entries(3,4,5) [OF L ms]
  obtain st summary sg files f where st: "map_of (self_step_metrics L) grp = Some st"
    and su: "self_summary L = Some summary" "map_of summary grp = Some sg"
    and fi: "self_metrics_files L = Some files" "map_of files grp = Some f"
    by blast
  have en: "self_is_enabled L" using L by (simp add: local_logger_def)
  have ks: "grp \<in> set (dict_keys summary)" and kf: "grp \<in> set (dict_keys files)"
    using su fi by (simp_all add: in_keys_iff)
  let ?L1 = "L\<lparr>self_summary := Some (AList.update grp (copy_to_dict d sg) summary)\<rparr>"
  let ?L2 = "?L1\<lparr>self_metrics_files :=
                  Some (AList.update grp
                          (f\<lparr>fh_written := fh_written f @ CHR 0x0A # csv_row str st ms d\<rparr>) files)\<rparr>"
  have l1: "local_logger ?L1 \<and> same_tables L ?L1 \<and> (\<forall>g. csv_content ?L1 g = csv_content L g)"
    using L su ks
    by (auto simp: local_logger_def same_tables_def csv_content_def keys_update_present
             split: option.splits)
  have l2: "local_logger ?L2 \<and> same_tables L ?L2
            \<and> (\<forall>g. csv_content ?L2 g
                    = (if g = grp
                       then map_option (\<lambda>c. c @ CHR 0x0A # csv_row str st ms d) (csv_content L g)
                       else csv_content L g))"
    using L su fi ks kf
    by (auto simp: local_logger_def same_tables_def csv_content_def keys_update_present update_conv'
             split: option.splits)
  have f: "Logger_log str d grp False (L, w) =
             (if st \<notin> set (dict_keys d) then (Some MissingStepMetricError, ?L1, w)
              else if fh_closed f then (Some ClosedFileError, ?L1, w)
              else (None, ?L2, w))"
    by (simp add: log_local_logger [OF L ms st su fi] Let_def)
  have "(r, L', w') = (Some (UnregisteredKeyError (set (dict_keys d) - {st} - set ms)), L, w)
        \<or> (r, L', w') = Logger_log str d grp False (L, w)"
    using r check_keys_unfold [OF en ms st, of str d w]
    by (cases check_keys) (auto split: if_splits)
  then consider "r \<noteq> None" "L' = L" | "r \<noteq> None" "L' = ?L1" | "r = None" "L' = ?L2"
    unfolding f by (auto split: if_splits)
  then show ?thesis
  proof cases
    case 1
    with L show ?thesis by (auto simp: same_tables_def)
  next
    case 2
    with l1 show ?thesis by auto
  next
    case 3
    with l2 ms st show ?thesis by auto
  qed
qed

lemma log_file_local_logger:
  "Logger_log_file file_path (L, w) = (r, L', w') \<Longrightarrow> L' = L"
  by (auto simp: Logger_log_file_def log_file_local_def log_file_wandb_def Let_def
           split: if_splits sum.splits option.splits prod.splits)

lemma log_summary_local_logger:
  "Logger_log_summary (L, w) = (r, L', w') \<Longrightarrow> L' = L"
  by (auto simp: Logger_log_summary_def Let_def split: if_splits option.splits prod.splits)

lemma same_tables_refl [simp]: "same_tables L L"
  by (simp add: same_tables_def)

lemma perform_local_logger:
  assumes L: "local_logger L" and r: "perform str c (L, w) = (r, L', w')"
  shows "local_logger L' \<and> same_tables L L'
         \<and> (\<forall>g ms st. map_of (self_metrics L) g = Some ms \<and> map_of (self_step_metrics L) g = Some st
               \<longrightarrow> csv_content L' g
                   = map_option
                       (\<lambda>x. x @ concat (map (\<lambda>d. CHR 0x0A # csv_row str st ms d)
                                           (logged_records g [c] [r])))
                       (csv_content L g))"
proof (cases c)
  case (Log d grp check_keys)
  with r have "Logger_log str d grp check_keys (L, w) = (r, L', w')" by simp
  from log_local_logger_step [OF L this] Log show ?thesis
    by (cases r) (auto simp: option.map_ident)
next
  case (LogBinned d grp)
  with r log_binned_local_logger [OF L, of str d grp w] L show ?thesis
    by (auto simp: option.map_ident)
next
  case (LogFile file_path)
  with r log_file_local_logger [of file_path L w r L' w'] L show ?thesis
    by (cases r) (auto simp: option.map_ident)
next
  case LogSummary
  with r log_summary_local_logger [of L w r L' w'] L show ?thesis
    by (cases r) (auto simp: option.map_ident)
next
  case Finish
  with r finish_local_logger [OF L, of w r L' w'] show ?thesis
    by (cases r) (auto simp: option.map_ident)
qed

lemma logged_records_Cons:
  "logged_records g (c # cs) (r # rs) = logged_records g [c] [r] @ logged_records g cs rs"
  by (cases "(g, [c], [r])" rule: logged_records.cases) auto

lemma run_local_logger:
  assumes "local_logger L" and "run str cs (L, w) = (rs, L', w')"
    and "map_of (self_metrics L) g = Some ms" and "map_of (self_step_metrics L) g = Some st"
  shows "local_logger L' \<and> same_tables L L'
         \<and> csv_content L' g
             = map_option
                 (\<lambda>x. x @ concat (map (\<lambda>d. CHR 0x0A # csv_row str st ms d) (logged_records g cs rs)))
                 (csv_content L g)"
  using assms
proof (induction cs arbitrary: L w rs L' w')
  case Nil
  then show ?case by (simp add: option.map_ident)
next
  case (Cons c cs)
  obtain r L1 w1 where p: "perform str c (L, w) = (r, L1, w1)"
    by (cases "perform str c (L, w)")
  obtain rs1 L2 w2 where q: "run str cs (L1, w1) = (rs1, L2, w2)"
    by (cases "run str cs (L1, w1)")
  from Cons.prems(2) p q have e: "rs = r # rs1" "L' = L2"
    by simp_all
  from perform_local_logger [OF Cons.prems(1) p] Cons.prems(3,4)
  have l1: "local_logger L1" and t1: "same_tables L L1"
    and c1: "csv_content L1 g
               = map_option
                   (\<lambda>x. x @ concat (map (\<lambda>d. CHR 0x0A # csv_row str st ms d)
                                       (logged_records g [c] [r])))
                   (csv_content L g)"
    by blast+
  have m1: "map_of (self_metrics L1) g = Some ms" "map_of (self_step_metrics L1) g = Some st"
    using t1 Cons.prems(3,4) by (simp_all add: same_tables_def)
  from Cons.IH [OF l1 q m1]
  have l2: "local_logger L2" and t2: "same_tables L1 L2"
    and c2: "csv_content L2 g
               = map_option
                   (\<lambda>x. x @ concat (map (\<lambda>d. CHR 0x0A # csv_row str st ms d)
                                       (logged_records g cs rs1)))
                   (csv_content L1 g)"
    by blast+
  have "same_tables L L2"
    using t1 t2 by (simp add: same_tables_def)
  moreover have "logged_records g (c # cs) rs = logged_records g [c] [r] @ logged_records g cs rs1"
    unfolding e by (rule logged_records_Cons)
  ultimately show ?case
    using l2 c1 c2 e by (simp add: option.map_comp comp_def)
qed

lemma str_join_lines:
  "str_join sep (x # xs) = x @ concat (map (\<lambda>y. sep @ y) xs)"
  by (induction xs arbitrary: x) simp_all

subsection \<open>Where the metric files are\<close>

lemma str_split_no_sep: "c \<notin> set ys \<Longrightarrow> str_split c ys = [ys]"
  by (induction ys) auto

lemma str_split_not_Nil [simp]: "str_split c xs \<noteq> []"
  by (induction xs) (auto split: list.splits)

lemma str_split_append:
  "c \<notin> set ys \<Longrightarrow>
     str_split c (xs @ ys) = butlast (str_split c xs) @ [last (str_split c xs) @ ys]"
proof (induction xs)
  case Nil
  then show ?case by (simp add: str_split_no_sep)
next
  case (Cons x xs)
  then show ?case
    by (cases "str_split c xs") (auto split: list.splits)
qed

lemma str_join_snoc: "\<exists>pre. str_join sep (xs @ [y]) = pre @ y"
proof (induction xs)
  case Nil
  then show ?case by simp
next
  case (Cons x xs)
  then obtain pre where "str_join sep (xs @ [y]) = pre @ y" by blast
  then show ?case
    by (cases "xs @ [y]") (auto intro: exI [of _ "x @ sep @ pre"])
qed

text \<open>A normalised path ends as its last component does.\<close>

lemma normpath_last:
  assumes "s \<noteq> []" and "CHR ''/'' \<notin> set s" and "last s \<noteq> CHR ''.''"
  shows "last (os_path_normpath (x @ s)) = last s"
proof -
  let ?c = "last (str_split CHR ''/'' x) @ s"
  have c: "?c \<noteq> []" "?c \<noteq> ''.''" "?c \<noteq> ''..''"
    using assms(1,3) by (auto simp: append_eq_Cons_conv Cons_eq_append_conv)
  have l: "last (replicate n CHR ''/'' @
                 str_join ''/'' (foldl (normpath_step n) [] (str_split CHR ''/'' (x @ s)))) = last s
           \<and> str_join ''/'' (foldl (normpath_step n) [] (str_split CHR ''/'' (x @ s))) \<noteq> []" for n
  proof -
    have f: "foldl (normpath_step n) [] (str_split CHR ''/'' (x @ s))
          = foldl (normpath_step n) [] (butlast (str_split CHR ''/'' x)) @ [?c]"
      using c by (simp add: str_split_append [OF assms(2)] normpath_step_def)
    obtain pre where
      p: "str_join ''/'' (foldl (normpath_step n) [] (butlast (str_split CHR ''/'' x)) @ [?c]) = pre @ ?c"
      using str_join_snoc by blast
    show ?thesis
      unfolding f p using assms(1) by simp
  qed
  show ?thesis
    using assms(1) l by (simp add: os_path_normpath_def Let_def)
qed

lemma os_path_join2_suffix: "\<exists>pre. os_path_join2 a b = pre @ b"
proof -
  have "os_path_join2 a b = [] @ b \<or> os_path_join2 a b = a @ b \<or> os_path_join2 a b = (a @ ''/'') @ b"
    by (simp add: os_path_join2_def)
  then show ?thesis by blast
qed

lemma join_paths2_last:
  assumes "s \<noteq> []" and "CHR ''/'' \<notin> set s" and "last s \<noteq> CHR ''.''"
  shows "last (join_paths2 a (y @ s)) = last s"
proof -
  obtain pre where "os_path_join2 a (y @ s) = pre @ y @ s"
    using os_path_join2_suffix by blast
  then have "join_paths2 a (y @ s) = os_path_normpath ((if a = [] then y else pre @ y) @ s)"
    by (simp add: join_paths2_def)
  then show ?thesis
    by (simp only: normpath_last [OF assms])
qed

text \<open>
  The metric file of a group is neither \<^verbatim>\<open>summary.json\<close> nor \<^verbatim>\<open>status.txt\<close>: its name
  ends in \<^verbatim>\<open>.csv\<close>, whatever the name of the group.
\<close>

lemma csv_path_not_summary: "csv_path run_dir g \<noteq> join_paths2 run_dir ''summary.json''"
proof -
  have "last (csv_path run_dir g) = CHR ''v''"
    unfolding csv_path_def using join_paths2_last [of "''.csv''" _ g] by simp
  moreover have "last (join_paths2 run_dir ''summary.json'') = CHR ''n''"
    using join_paths2_last [of "''summary.json''" run_dir "[]"] by simp
  ultimately show ?thesis by auto
qed

lemma csv_path_not_status: "csv_path run_dir g \<noteq> join_paths2 run_dir ''status.txt''"
proof -
  have "last (csv_path run_dir g) = CHR ''v''"
    unfolding csv_path_def using join_paths2_last [of "''.csv''" _ g] by simp
  moreover have "last (join_paths2 run_dir ''status.txt'') = CHR ''t''"
    using join_paths2_last [of "''status.txt''" run_dir "[]"] by simp
  ultimately show ?thesis by auto
qed

subsection \<open>The metric files from the constructor to \<^verbatim>\<open>finish\<close>\<close>

lemma perform_csv_files_open:
  assumes L: "local_logger L" and o: "csv_files_open run_dir L"
    and r: "perform str c (L, w) = (r, L', w')" and c: "c \<noteq> Finish"
  shows "csv_files_open run_dir L'"
proof (cases c)
  case (Log d grp check_keys)
  with r have l: "Logger_log str d grp check_keys (L, w) = (r, L', w')" by simp
  have en: "self_is_enabled L" using L by (simp add: local_logger_def)
  show ?thesis
  proof (cases "grp \<in> set (dict_keys (self_metrics L))")
    case False
    with en l have "L' = L" by (simp add: Logger_log_def)
    with o show ?thesis by simp
  next
    case True
    then obtain ms where ms: "map_of (self_metrics L) grp = Some ms"
      by (auto simp: in_keys_iff)
    from local_logger_entries(3,4,5) [OF L ms]
    obtain st summary sg files f where st: "map_of (self_step_metrics L) grp = Some st"
      and su: "self_summary L = Some summary" "map_of summary grp = Some sg"
      and fi: "self_metrics_files L = Some files" "map_of files grp = Some f"
      by blast
    let ?L1 = "L\<lparr>self_summary := Some (AList.update grp (copy_to_dict d sg) summary)\<rparr>"
    let ?f = "f\<lparr>fh_written := fh_written f @ CHR 0x0A # csv_row str st ms d\<rparr>"
    let ?L2 = "?L1\<lparr>self_metrics_files := Some (AList.update grp ?f files)\<rparr>"
    have f: "Logger_log str d grp False (L, w) =
               (if st \<notin> set (dict_keys d) then (Some MissingStepMetricError, ?L1, w)
                else if fh_closed f then (Some ClosedFileError, ?L1, w)
                else (None, ?L2, w))"
      by (simp add: log_local_logger [OF L ms st su fi] Let_def)
    have "(r, L', w') = (Some (UnregisteredKeyError (set (dict_keys d) - {st} - set ms)), L, w)
          \<or> (r, L', w') = Logger_log str d grp False (L, w)"
      using l check_keys_unfold [OF en ms st, of str d w]
      by (cases check_keys) (auto split: if_splits)
    then consider "L' = L" | "L' = ?L1" | "L' = ?L2"
      unfolding f by (auto split: if_splits)
    then show ?thesis
    proof cases
      case 1
      with o show ?thesis by simp
    next
      case 2
      with o show ?thesis by (simp add: csv_files_open_def)
    next
      case 3
      from fi(2) have "(grp, f) \<in> set files" by (rule map_of_SomeD)
      with o fi(1) have "fh_path f = csv_path run_dir grp \<and> \<not> fh_closed f"
        by (auto simp: csv_files_open_def list_all_iff)
      with o fi(1) 3 show ?thesis
        by (auto simp: csv_files_open_def list_all_iff dest!: update_set_cases)
    qed
  qed
next
  case (LogBinned d grp)
  with r log_binned_local_logger [OF L, of str d grp w] o show ?thesis by auto
next
  case (LogFile file_path)
  with r log_file_local_logger [of file_path L w r L' w'] o show ?thesis by simp
next
  case LogSummary
  with r log_summary_local_logger [of L w r L' w'] o show ?thesis by simp
next
  case Finish
  with c show ?thesis by simp
qed

lemma run_csv_files_open:
  assumes "local_logger L" and "csv_files_open run_dir L"
    and "run str cs (L, w) = (rs, L', w')" and "Finish \<notin> set cs"
  shows "csv_files_open run_dir L'"
  using assms
proof (induction cs arbitrary: L w rs L' w')
  case Nil
  then show ?case by simp
next
  case (Cons c cs)
  obtain r L1 w1 where p: "perform str c (L, w) = (r, L1, w1)"
    by (cases "perform str c (L, w)")
  obtain rs1 L2 w2 where q: "run str cs (L1, w1) = (rs1, L2, w2)"
    by (cases "run str cs (L1, w1)")
  from Cons.prems(3) p q have e: "L' = L2" by simp
  from Cons.prems(4) have n: "c \<noteq> Finish" "Finish \<notin> set cs" by auto
  have l1: "local_logger L1"
    using perform_local_logger [OF Cons.prems(1) p] by blast
  have o1: "csv_files_open run_dir L1"
    by (rule perform_csv_files_open [OF Cons.prems(1,2) p n(1)])
  from Cons.IH [OF l1 o1 q n(2)] e show ?case by simp
qed

text \<open>Closing the files leaves in each of them what was written to it, when no two share a path.\<close>

lemma close_all_other:
  "close_all files w = (files', w') \<Longrightarrow> p \<notin> set (map (\<lambda>(g, f). fh_path f) files) \<Longrightarrow>
     map_of (fs w') p = map_of (fs w) p"
proof (induction files arbitrary: w files' w')
  case Nil
  then show ?case by simp
next
  case (Cons gf files)
  obtain g f where gf: "gf = (g, f)" by (cases gf)
  obtain f1 w1 where c: "fh_close f w = (f1, w1)" by (cases "fh_close f w")
  obtain rest w2 where r: "close_all files w1 = (rest, w2)" by (cases "close_all files w1")
  from Cons.prems(1) gf c r have e: "w' = w2" by simp
  from Cons.prems(2) gf have n: "p \<noteq> fh_path f" "p \<notin> set (map (\<lambda>(g, f). fh_path f) files)"
    by auto
  from c n(1) have "map_of (fs w1) p = map_of (fs w) p"
    by (auto simp: fh_close_def update_conv' split: if_splits)
  with Cons.IH [OF r n(2)] e show ?case by simp
qed

lemma close_all_flush:
  assumes "close_all files w = (files', w')"
    and "distinct (map (\<lambda>(g, f). fh_path f) files)"
    and "(g, f) \<in> set files" and "\<not> fh_closed f"
  shows "map_of (fs w') (fh_path f) = Some (File (Text (fh_written f)))"
  using assms
proof (induction files arbitrary: w files' w')
  case Nil
  then show ?case by simp
next
  case (Cons hk files)
  obtain h k where hk: "hk = (h, k)" by (cases hk)
  obtain k1 w1 where c: "fh_close k w = (k1, w1)" by (cases "fh_close k w")
  obtain rest w2 where r: "close_all files w1 = (rest, w2)" by (cases "close_all files w1")
  from Cons.prems(1) hk c r have e: "w' = w2" by simp
  from Cons.prems(2) hk have d: "fh_path k \<notin> set (map (\<lambda>(g, f). fh_path f) files)"
    "distinct (map (\<lambda>(g, f). fh_path f) files)"
    by auto
  show ?case
  proof (cases "(g, f) = (h, k)")
    case True
    with c Cons.prems(4) have "map_of (fs w1) (fh_path f) = Some (File (Text (fh_written f)))"
      by (auto simp: fh_close_def update_conv')
    with close_all_other [OF r d(1)] True e show ?thesis by simp
  next
    case False
    with Cons.prems(3) hk have "(g, f) \<in> set files" by auto
    from Cons.IH [OF r d(2) this Cons.prems(4)] e show ?thesis by simp
  qed
qed

lemma write_file_other:
  "write_file q c w = (e, w') \<Longrightarrow> p \<noteq> q \<Longrightarrow> map_of (fs w') p = map_of (fs w) p"
  by (auto simp: write_file_def update_conv' split: if_splits)

lemma log_summary_other:
  "Logger_log_summary (L, w) = (r, L', w') \<Longrightarrow> self_summary_path L = Some sp \<Longrightarrow> p \<noteq> sp \<Longrightarrow>
     map_of (fs w') p = map_of (fs w) p"
  by (auto simp: Logger_log_summary_def save_json_def Let_def
           split: if_splits option.splits prod.splits dest: write_file_other)

text \<open>
  \<^verbatim>\<open>finish\<close> on a logger whose metric files are open at paths that differ: the file of
  each group then holds what was written to it.
\<close>

lemma finish_csv_file:
  assumes L: "local_logger L" and o: "csv_files_open run_dir L"
    and d: "distinct (map (csv_path run_dir) (dict_keys (self_metrics L)))"
    and n: "\<not> self_is_finished L"
    and f: "Logger_finish (L, w) = (r, L', w')"
    and g: "grp \<in> set (dict_keys (self_metrics L))"
  shows "read_text w' (csv_path run_dir grp) = csv_content L grp \<and> csv_content L grp \<noteq> None"
proof -
  have en: "self_is_enabled L" "self_log_mode L = LOCAL"
    using L by (simp_all add: local_logger_def)
  from L obtain files where fi: "self_metrics_files L = Some files"
    "dict_keys files = dict_keys (self_metrics L)"
    by (auto simp: local_logger_def split: option.splits)
  from o fi(1) have p: "\<forall>(g, f)\<in>set files. fh_path f = csv_path run_dir g \<and> \<not> fh_closed f"
    and rd: "self_run_dir L = Some run_dir"
    and sp: "self_summary_path L = Some (join_paths2 run_dir ''summary.json'')"
    by (auto simp: csv_files_open_def list_all_iff)
  have "map (\<lambda>(g, f). fh_path f) files = map (\<lambda>(g, f). csv_path run_dir g) files"
    using p by (intro map_cong) auto
  also have "\<dots> = map (csv_path run_dir) (dict_keys files)"
    by (simp add: dict_keys_def case_prod_unfold comp_def)
  finally have dp: "distinct (map (\<lambda>(g, f). fh_path f) files)"
    using d fi(2) by simp
  from g fi(2) have "grp \<in> set (dict_keys files)" by simp
  then obtain h where h: "map_of files grp = Some h"
    by (auto simp: in_keys_iff)
  then have m: "(grp, h) \<in> set files" by (rule map_of_SomeD)
  with p have ph: "fh_path h = csv_path run_dir grp" "\<not> fh_closed h" by auto
  obtain files' w1 where c: "close_all files w = (files', w1)" by (cases "close_all files w")
  from close_all_flush [OF c dp m ph(2)] ph(1)
  have a: "map_of (fs w1) (csv_path run_dir grp) = Some (File (Text (fh_written h)))"
    by simp
  let ?L1 = "L\<lparr>self_metrics_files := Some files'\<rparr>"
  obtain r2 L2 w2 where s: "Logger_log_summary (?L1, w1) = (r2, L2, w2)"
    by (cases "Logger_log_summary (?L1, w1)")
  have L2: "L2 = ?L1" using log_summary_local_logger [OF s] .
  have b: "map_of (fs w2) (csv_path run_dir grp) = map_of (fs w1) (csv_path run_dir grp)"
  proof (rule log_summary_other [OF s])
    show "self_summary_path ?L1 = Some (join_paths2 run_dir ''summary.json'')"
      by (simp add: sp)
    show "csv_path run_dir grp \<noteq> join_paths2 run_dir ''summary.json''"
      by (rule csv_path_not_summary)
  qed
  have st: "join_paths [self_run_dir L2, Some ''status.txt''] = Inr (join_paths2 run_dir ''status.txt'')"
    using rd L2 by (simp add: join_paths_literal)
  have "w' = w2 \<or> (\<exists>e. write_file (join_paths2 run_dir ''status.txt'') (Text ''finished'') w2 = (e, w'))"
    using f en n fi(1) c s st
    by (auto simp: Logger_finish_def Let_def split: option.splits prod.splits)
  then have "map_of (fs w') (csv_path run_dir grp) = map_of (fs w2) (csv_path run_dir grp)"
    using write_file_other [OF _ csv_path_not_status] by blast
  with a b fi(1) h show ?thesis
    by (simp add: read_text_def csv_content_def)
qed

lemma csv_content_after_calls:
  assumes "Logger_init set_iter a w0 = (Inr L0, w1)" and "arg_log_mode a = ''local''"
    and "distinct (dict_keys (arg_metrics a))"
    and "map_of (arg_metrics a) grp = Some (step_metric, metrics_arr)"
    and "run str calls (L0, w1) = (results, L, w)"
  shows "csv_content L grp
           = Some (str_join [CHR 0x0A]
                    (csv_header step_metric (list_of_set_difference set_iter metrics_arr step_metric)
                     # map (csv_row str step_metric
                              (list_of_set_difference set_iter metrics_arr step_metric))
                           (logged_records grp calls results)))"
proof -
  let ?cols = "list_of_set_difference set_iter metrics_arr step_metric"
  note i = init_local [OF assms(1,2,3)]
  have m: "map_of (self_metrics L0) grp = Some ?cols" "map_of (self_step_metrics L0) grp = Some step_metric"
    using assms(4) by (simp_all add: i(2,3) map_of_metrics_table)
  have ne: "?cols \<noteq> []"
    using local_logger_entries(2) [OF i(1) m(1)] .
  have h: "csv_content L0 grp = Some (csv_header step_metric ?cols)"
    using i(4) [OF assms(4)] ne by (simp add: csv_header_def str_join_Cons)
  from run_local_logger [OF i(1) assms(5) m] h show ?thesis
    by (simp add: str_join_lines comp_def)
qed

subsection \<open>The metric file after a sequence of calls\<close>

text \<open>
  Claim C3. Take a logger constructed in local mode on a mapping whose groups have
  metric files at paths that differ once normalised, any sequence of calls on it other
  than \<^verbatim>\<open>finish\<close> (\<^verbatim>\<open>log\<close> for any group, with or without the key check, \<^verbatim>\<open>log_binned\<close>,
  \<^verbatim>\<open>log_file\<close>, \<^verbatim>\<open>log_summary\<close>), and then \<^verbatim>\<open>finish\<close>; let N be the number of calls of
  \<^verbatim>\<open>log\<close> for a group that returned without raising. In the directory tree that
  \<^verbatim>\<open>finish\<close> leaves, the file \<^verbatim>\<open>metrics/<group>.csv\<close> of the run directory holds N+1 lines
  joined by line breaks, with nothing after the last: the header, then one row for each
  of those calls in call order, each row being the value of the step metric followed by
  the value of each metric in the column order of the group, an omitted metric as the
  empty field.
\<close>

theorem csv_file_after_finish:
  assumes "Logger_init set_iter a w0 = (Inr L0, w1)" and "arg_log_mode a = ''local''"
    and "join_paths [arg_local_base_dir a, Some (arg_name a)] = Inr run_dir"
    and "distinct (map (csv_path run_dir) (dict_keys (arg_metrics a)))"
    and "map_of (arg_metrics a) grp = Some (step_metric, metrics_arr)"
    and "Finish \<notin> set calls"
    and "run str calls (L0, w1) = (results, L, w)"
    and "Logger_finish (L, w) = (r, L', w')"
  shows "read_text w' (csv_path run_dir grp)
           = Some (str_join [CHR 0x0A]
                    (csv_header step_metric (list_of_set_difference set_iter metrics_arr step_metric)
                     # map (csv_row str step_metric
                              (list_of_set_difference set_iter metrics_arr step_metric))
                           (logged_records grp calls results)))
         \<and> length (csv_header step_metric (list_of_set_difference set_iter metrics_arr step_metric)
                    # map (csv_row str step_metric
                             (list_of_set_difference set_iter metrics_arr step_metric))
                          (logged_records grp calls results))
             = length (logged_records grp calls results) + 1"
proof -
  let ?cols = "list_of_set_difference set_iter metrics_arr step_metric"
  have dk: "distinct (dict_keys (arg_metrics a))"
    using assms(4) by (simp add: distinct_map)
  note i = init_local [OF assms(1,2) dk]
  have m: "map_of (self_metrics L0) grp = Some ?cols" "map_of (self_step_metrics L0) grp = Some step_metric"
    using assms(5) by (simp_all add: i(2,3) map_of_metrics_table)
  have k0: "dict_keys (self_metrics L0) = dict_keys (arg_metrics a)"
    by (simp add: i(2) dict_keys_def comp_def case_prod_unfold)
  from run_local_logger [OF i(1) assms(7) m]
  have l: "local_logger L" and t: "same_tables L0 L" by blast+
  have k: "dict_keys (self_metrics L) = dict_keys (arg_metrics a)"
    and nf: "\<not> self_is_finished L"
    using t k0 i(6) by (simp_all add: same_tables_def)
  have o: "csv_files_open run_dir L"
    by (rule run_csv_files_open [OF i(1) i(5) assms(7,6)]) (rule assms(3))
  have g: "grp \<in> set (dict_keys (self_metrics L))"
    using assms(5) k by (simp add: in_keys_iff)
  have d: "distinct (map (csv_path run_dir) (dict_keys (self_metrics L)))"
    using assms(4) k by simp
  from finish_csv_file [OF l o d nf assms(8) g]
  have "read_text w' (csv_path run_dir grp) = csv_content L grp" by simp
  with csv_content_after_calls [OF assms(1,2) dk assms(5,7)] show ?thesis
    by simp
qed

theorem csv_file_after_finish_witness:
  "arg_log_mode test_args = ''local''
   \<and> join_paths [arg_local_base_dir test_args, Some (arg_name test_args)] = Inr ''debug_data/debug''
   \<and> distinct (map (csv_path ''debug_data/debug'') (dict_keys (arg_metrics test_args)))
   \<and> map_of (arg_metrics test_args) ''train'' = Some (''step'', [''metric1'', ''metric2''])
   \<and> csv_path ''debug_data/debug'' ''train'' = ''debug_data/debug/metrics/train.csv''
   \<and> (case Logger_init id test_args test_world of
         (Inl e, w1) \<Rightarrow> False
       | (Inr L0, w1) \<Rightarrow>
           (case run str_int
                   [Log log_d ''train'' True, Log [(''metric2'', 5)] ''train'' False,
                    LogBinned log_d ''train'', Log [(''step'', 2), (''metric2'', 5)] ''train'' False,
                    LogSummary] (L0, w1) of
              (results, L, w) \<Rightarrow>
                results = [None, Some MissingStepMetricError,
                           Some (ConfigurationError BinSizeNotSet), None, None]
                \<and> (case Logger_finish (L, w) of
                       (r, L', w') \<Rightarrow>
                         r = None
                         \<and> read_text w' ''debug_data/debug/metrics/train.csv''
                             = Some (''step,metric1,metric2'' @ [CHR 0x0A] @ ''1,10,''
                                     @ [CHR 0x0A] @ ''2,,5''))))"
proof -
  let ?calls = "[Log log_d ''train'' True, Log [(''metric2'', 5)] ''train'' False,
                 LogBinned log_d ''train'', Log [(''step'', 2), (''metric2'', 5)] ''train'' False,
                 LogSummary]"
  let ?results = "[None, Some MissingStepMetricError,
                   Some (ConfigurationError BinSizeNotSet), None, None]"
  have h: "arg_log_mode test_args = ''local''"
    "join_paths [arg_local_base_dir test_args, Some (arg_name test_args)] = Inr ''debug_data/debug''"
    "distinct (map (csv_path ''debug_data/debug'') (dict_keys (arg_metrics test_args)))"
    "map_of (arg_metrics test_args) ''train'' = Some (''step'', [''metric1'', ''metric2''])"
    by code_simp+
  have p: "csv_path ''debug_data/debug'' ''train'' = ''debug_data/debug/metrics/train.csv''"
    by code_simp
  have n: "Finish \<notin> set ?calls"
    by simp
  have "case Logger_init id test_args test_world of
          (Inl e, w1) \<Rightarrow> False
        | (Inr L0, w1) \<Rightarrow>
            fst (run str_int ?calls (L0, w1)) = ?results
            \<and> fst (Logger_finish (snd (run str_int ?calls (L0, w1)))) = None"
    by code_simp
  then obtain L0 w1 where c: "Logger_init id test_args test_world = (Inr L0, w1)"
    and r: "fst (run str_int ?calls (L0, w1)) = ?results"
    and f0: "fst (Logger_finish (snd (run str_int ?calls (L0, w1)))) = None"
    by (auto split: prod.splits sum.splits)
  from r obtain L w where q: "run str_int ?calls (L0, w1) = (?results, L, w)"
    by (cases "run str_int ?calls (L0, w1)") auto
  from f0 q obtain L' w' where f: "Logger_finish (L, w) = (None, L', w')"
    by (cases "Logger_finish (L, w)") auto
  have e: "str_join [CHR 0x0A]
             (csv_header ''step'' (list_of_set_difference id [''metric1'', ''metric2''] ''step'')
              # map (csv_row str_int ''step''
                       (list_of_set_difference id [''metric1'', ''metric2''] ''step''))
                    (logged_records ''train'' ?calls ?results))
           = ''step,metric1,metric2'' @ [CHR 0x0A] @ ''1,10,'' @ [CHR 0x0A] @ ''2,,5''"
    by code_simp
  from csv_file_after_finish [OF c h n q f] show ?thesis
    using h c q f unfolding e p by simp
qed

subsection \<open>More on the constructor\<close>

lemma uniq_set [simp]: "set (uniq xs) = set xs" and uniq_distinct [simp]: "distinct (uniq xs)"
  by (simp_all add: uniq_def)

lemma list_of_set_difference_ok:
  assumes "set_iter_ok set_iter"
  shows "distinct (list_of_set_difference set_iter ms st)"
    and "set (list_of_set_difference set_iter ms st) = set ms - {st}"
proof -
  have d: "distinct (filter (\<lambda>m. m \<noteq> st) (uniq ms))" by simp
  from assms d show "distinct (list_of_set_difference set_iter ms st)"
    by (simp add: set_iter_ok_def list_of_set_difference_def)
  from assms d have "set (list_of_set_difference set_iter ms st) = set (filter (\<lambda>m. m \<noteq> st) (uniq ms))"
    by (simp add: set_iter_ok_def list_of_set_difference_def)
  then show "set (list_of_set_difference set_iter ms st) = set ms - {st}"
    by auto
qed











lemma os_path_exists_print [simp]: "os_path_exists (print s w) p = os_path_exists w p"
  and os_path_isdir_print [simp]: "os_path_isdir (print s w) p = os_path_isdir w p"
  by (simp_all add: os_path_exists_def os_path_isdir_def)


lemma setup_metric_files_same_tables:
  "setup_metric_files gs (L, w) = (r, L', w') \<Longrightarrow> same_tables L L'"
  using files_frame_fields [OF setup_metric_files_frame] by blast

lemma setup_metric_files_bin_size:
  "setup_metric_files gs (L, w) = (r, L', w') \<Longrightarrow> self_bin_size L' = self_bin_size L"
  using setup_metric_files_same_tables [of gs L w r L' w'] by (simp add: same_tables_def)

lemma setup_local_bin_size:
  "setup_local reinit (L1, w) = (e, L, w') \<Longrightarrow> self_bin_size L = self_bin_size L1"
  by (auto simp: setup_local_def Let_def
           split: if_splits sum.splits prod.splits option.splits
           dest: setup_metric_files_bin_size)

lemma setup_wandb_bin_size:
  "setup_wandb reinit (L1, w) = (e, L, w') \<Longrightarrow> self_bin_size L = self_bin_size L1"
  by (auto simp: setup_wandb_def Let_def split: prod.splits option.splits)

lemma Logger_setup_bin_size:
  "Logger_setup r0 (L0, w) = (e, L, w') \<Longrightarrow> self_bin_size L = self_bin_size L0"
  by (auto simp: Logger_setup_def Let_def
           split: if_splits sum.splits prod.splits option.splits
           dest: setup_local_bin_size setup_wandb_bin_size)

subsection \<open>Groups without metrics\<close>




subsection \<open>Rejected arguments\<close>

text \<open>
  Claim C9. The constructor fails with a configuration error when the log mode is not
  one of the three legal values (then before it does anything else), when
  \<^verbatim>\<open>bin_size\<close> is a mapping whose key set is not the set of group names, and when
  \<^verbatim>\<open>bin_size\<close> is neither an integer nor a mapping. An integer \<^verbatim>\<open>bin_size\<close> passes the
  check, and the logger constructed has it as the bin size of every group.
\<close>

theorem init_rejects_bad_arguments:
  "(arg_log_mode a \<notin> {''disabled'', ''wandb'', ''local''}
      \<longrightarrow> Logger_init set_iter a w = (Inl (ConfigurationError InvalidLogMode), w))
   \<and> ((\<exists>d. arg_bin_size a = BinDict d \<and> set (dict_keys d) \<noteq> set (dict_keys (arg_metrics a)))
        \<or> arg_bin_size a = BinOther
      \<longrightarrow> (\<exists>r. fst (Logger_init set_iter a w) = Inl (ConfigurationError r)))
   \<and> (\<forall>b. arg_bin_size a = BinInt b
      \<longrightarrow> init_bin_size (dict_keys (arg_metrics a)) (arg_bin_size a)
            = Inr (Some (map (\<lambda>g. (g, b)) (dict_keys (arg_metrics a))))
          \<and> (\<forall>L w'. Logger_init set_iter a w = (Inr L, w')
                \<longrightarrow> self_bin_size L = Some (map (\<lambda>g. (g, b)) (dict_keys (arg_metrics a)))))"
proof (intro conjI impI allI)
  assume "arg_log_mode a \<notin> {''disabled'', ''wandb'', ''local''}"
  then show "Logger_init set_iter a w = (Inl (ConfigurationError InvalidLogMode), w)"
    by (simp add: Logger_init_def parse_log_mode_def)
next
  assume b: "(\<exists>d. arg_bin_size a = BinDict d \<and> set (dict_keys d) \<noteq> set (dict_keys (arg_metrics a)))
             \<or> arg_bin_size a = BinOther"
  then have "\<exists>r. init_bin_size (dict_keys (arg_metrics a)) (arg_bin_size a) = Inl (ConfigurationError r)"
    by (elim disjE exE conjE) (simp_all add: init_bin_size_def)
  then show "\<exists>r. fst (Logger_init set_iter a w) = Inl (ConfigurationError r)"
    by (auto simp: Logger_init_def parse_log_mode_def Let_def)
next
  fix b assume "arg_bin_size a = BinInt b"
  then show "init_bin_size (dict_keys (arg_metrics a)) (arg_bin_size a)
               = Inr (Some (map (\<lambda>g. (g, b)) (dict_keys (arg_metrics a))))"
    by (simp add: init_bin_size_def)
next
  fix b L w'
  assume b: "arg_bin_size a = BinInt b" and i: "Logger_init set_iter a w = (Inr L, w')"
  from b have bs: "init_bin_size (dict_keys (arg_metrics a)) (arg_bin_size a)
               = Inr (Some (map (\<lambda>g. (g, b)) (dict_keys (arg_metrics a))))"
    by (simp add: init_bin_size_def)
  have f: "self_bin_size (init_attributes set_iter a m x) = x" for m x
    by (simp add: init_attributes_def Let_def)
  from i bs obtain m where
    "L = init_attributes set_iter a m (Some (map (\<lambda>g. (g, b)) (dict_keys (arg_metrics a))))
     \<or> (\<exists>w1. Logger_setup None
                (init_attributes set_iter a m (Some (map (\<lambda>g. (g, b)) (dict_keys (arg_metrics a)))), w1)
              = (None, L, w'))"
    by (auto simp: Logger_init_def Let_def split: if_splits sum.splits prod.splits option.splits)
  then show "self_bin_size L = Some (map (\<lambda>g. (g, b)) (dict_keys (arg_metrics a)))"
    by (auto simp: f dest: Logger_setup_bin_size)
qed

theorem init_rejects_bad_arguments_witness:
  "arg_log_mode (test_args\<lparr>arg_log_mode := ''csv''\<rparr>) \<notin> {''disabled'', ''wandb'', ''local''}
   \<and> Logger_init id (test_args\<lparr>arg_log_mode := ''csv''\<rparr>) test_world
       = (Inl (ConfigurationError InvalidLogMode), test_world)
   \<and> arg_bin_size (test_args\<lparr>arg_bin_size := BinDict [(''eval'', 3)]\<rparr>) = BinDict [(''eval'', 3)]
   \<and> set (dict_keys [(''eval'', 3 :: int)])
       \<noteq> set (dict_keys (arg_metrics (test_args\<lparr>arg_bin_size := BinDict [(''eval'', 3)]\<rparr>)))
   \<and> fst (Logger_init id (test_args\<lparr>arg_bin_size := BinDict [(''eval'', 3)]\<rparr>) test_world)
       = Inl (ConfigurationError BinSizeKeysMismatch)
   \<and> arg_bin_size (test_args\<lparr>arg_bin_size := BinOther\<rparr>) = BinOther
   \<and> fst (Logger_init id (test_args\<lparr>arg_bin_size := BinOther\<rparr>) test_world)
       = Inl (ConfigurationError BinSizeWrongType)
   \<and> arg_bin_size (test_args\<lparr>arg_bin_size := BinInt 3\<rparr>) = BinInt 3
   \<and> (case Logger_init id (test_args\<lparr>arg_bin_size := BinInt 3\<rparr>) test_world of
         (Inl e, w) \<Rightarrow> False
       | (Inr L, w) \<Rightarrow> self_bin_size L = Some [(''train'', 3)])"
proof -
  let ?a1 = "test_args\<lparr>arg_log_mode := ''csv''\<rparr>"
  let ?a2 = "test_args\<lparr>arg_bin_size := BinDict [(''eval'', 3)]\<rparr>"
  let ?a3 = "test_args\<lparr>arg_bin_size := BinOther\<rparr>"
  let ?a4 = "test_args\<lparr>arg_bin_size := BinInt 3\<rparr>"
  have h1: "arg_log_mode ?a1 \<notin> {''disabled'', ''wandb'', ''local''}"
    by simp
  have h2: "arg_bin_size ?a2 = BinDict [(''eval'', 3)]"
    "set (dict_keys [(''eval'', 3 :: int)]) \<noteq> set (dict_keys (arg_metrics ?a2))"
    by (simp_all add: test_args_def dict_keys_def)
  have h3: "arg_bin_size ?a3 = BinOther"
    by simp
  have h4: "arg_bin_size ?a4 = BinInt 3"
    by simp
  have k4: "dict_keys (arg_metrics ?a4) = [''train'']"
    by (simp add: test_args_def dict_keys_def)
  have c1: "Logger_init id ?a1 test_world = (Inl (ConfigurationError InvalidLogMode), test_world)"
    using init_rejects_bad_arguments [of ?a1 id test_world] h1 by blast
  have e2: "\<exists>r. fst (Logger_init id ?a2 test_world) = Inl (ConfigurationError r)"
    and e3: "\<exists>r. fst (Logger_init id ?a3 test_world) = Inl (ConfigurationError r)"
    using init_rejects_bad_arguments [of ?a2 id test_world]
      init_rejects_bad_arguments [of ?a3 id test_world] h2 h3 by blast+
  have c2: "fst (Logger_init id ?a2 test_world) = Inl (ConfigurationError BinSizeKeysMismatch)"
    by code_simp
  have c3: "fst (Logger_init id ?a3 test_world) = Inl (ConfigurationError BinSizeWrongType)"
    by code_simp
  have "case Logger_init id ?a4 test_world of (Inl e, w) \<Rightarrow> False | (Inr L, w) \<Rightarrow> True"
    by code_simp
  then obtain L w where i: "Logger_init id ?a4 test_world = (Inr L, w)"
    by (auto split: prod.splits sum.splits)
  have c4: "self_bin_size L = Some [(''train'', 3)]"
    using init_rejects_bad_arguments [of ?a4 id test_world] h4 i k4 by simp
  from h1 h2 h3 h4 c1 e2 e3 c2 c3 c4 i show ?thesis
    by simp
qed

subsection \<open>The header row\<close>

text \<open>
  Claim C7, amended. For a logger constructed in local mode, the header written to the
  metric file of a group is the step-metric name followed by the metric names of the
  group, comma-separated, in the order of the list kept in \<^verbatim>\<open>_metrics\<close>, which is the
  order of the rows too. That list is the iteration order of the set built in line
  113: it holds each name the caller gave, other than the step metric, exactly once,
  and it need not be the order in which the caller gave them.
\<close>

theorem csv_header_columns:
  assumes "Logger_init set_iter a w0 = (Inr L, w1)" and "arg_log_mode a = ''local''"
    and "distinct (dict_keys (arg_metrics a))"
    and "map_of (arg_metrics a) grp = Some (step_metric, metrics_arr)"
  shows "csv_content L grp
           = Some (csv_header step_metric (list_of_set_difference set_iter metrics_arr step_metric))
         \<and> map_of (self_metrics L) grp
             = Some (list_of_set_difference set_iter metrics_arr step_metric)
         \<and> (set_iter_ok set_iter \<longrightarrow>
               distinct (list_of_set_difference set_iter metrics_arr step_metric)
               \<and> set (list_of_set_difference set_iter metrics_arr step_metric)
                   = set metrics_arr - {step_metric})"
proof -
  let ?cols = "list_of_set_difference set_iter metrics_arr step_metric"
  note i = init_local [OF assms(1,2,3)]
  have m: "map_of (self_metrics L) grp = Some ?cols"
    using assms(4) by (simp add: i(2) map_of_metrics_table)
  have ne: "?cols \<noteq> []"
    using local_logger_entries(2) [OF i(1) m] .
  have h: "csv_content L grp = Some (csv_header step_metric ?cols)"
    using i(4) [OF assms(4)] ne by (simp add: csv_header_def str_join_Cons)
  from h m list_of_set_difference_ok show ?thesis
    by blast
qed

theorem csv_header_columns_witness:
  "arg_log_mode test_args = ''local'' \<and> distinct (dict_keys (arg_metrics test_args))
   \<and> map_of (arg_metrics test_args) ''train'' = Some (''step'', [''metric1'', ''metric2''])
   \<and> set_iter_ok rev
   \<and> (case Logger_init rev test_args test_world of
         (Inl e, w1) \<Rightarrow> False
       | (Inr L, w1) \<Rightarrow>
           csv_content L ''train'' = Some ''step,metric2,metric1''
           \<and> map_of (self_metrics L) ''train'' = Some [''metric2'', ''metric1''])"
proof -
  have h: "arg_log_mode test_args = ''local''" "distinct (dict_keys (arg_metrics test_args))"
    "map_of (arg_metrics test_args) ''train'' = Some (''step'', [''metric1'', ''metric2''])"
    by (simp_all add: test_args_def dict_keys_def)
  have ok: "set_iter_ok rev"
    by (simp add: set_iter_ok_def)
  have "case Logger_init rev test_args test_world of (Inl e, w1) \<Rightarrow> False | (Inr L, w1) \<Rightarrow> True"
    by code_simp
  then obtain L w1 where c: "Logger_init rev test_args test_world = (Inr L, w1)"
    by (auto split: prod.splits sum.splits)
  have e: "list_of_set_difference rev [''metric1'', ''metric2''] ''step'' = [''metric2'', ''metric1'']"
    "csv_header ''step'' [''metric2'', ''metric1''] = ''step,metric2,metric1''"
    by code_simp+
  from csv_header_columns [OF c h] show ?thesis
    using h ok c by (simp add: e)
qed

text \<open>
  Counterexample to claim C7 as stated: the set of the two metric names of the source's
  test may iterate in the order \<^verbatim>\<open>metric2, metric1\<close>, and the header is then not the one
  in the order of the caller's list.
\<close>

theorem csv_header_insertion_order_counterexample:
  "set_iter_ok rev
   \<and> \<not> isl (fst (Logger_init rev test_args test_world))
   \<and> csv_content (projr (fst (Logger_init rev test_args test_world))) ''train''
       = Some ''step,metric2,metric1''
   \<and> csv_header ''step'' (insertion_order [''metric1'', ''metric2''] ''step'')
       = ''step,metric1,metric2''"
proof -
  have "set_iter_ok rev"
    by (simp add: set_iter_ok_def)
  moreover have "\<not> isl (fst (Logger_init rev test_args test_world))
     \<and> csv_content (projr (fst (Logger_init rev test_args test_world))) ''train''
         = Some ''step,metric2,metric1''
     \<and> csv_header ''step'' (insertion_order [''metric1'', ''metric2''] ''step'')
         = ''step,metric1,metric2''"
    by code_simp
  ultimately show ?thesis by blast
qed

end
